theory Spec2Isabelle
  imports Main "HOL-Library.Sublist"
begin

section \<open>Values, strings and errors\<close>

text \<open>
  A Python \<open>str\<close> is a sequence of Unicode code points; it is modelled as a list of
  natural numbers (the code points), so that the Cyrillic titles and answers of the
  program can be written down. A literal such as \<open>'y'\<close> is \<open>[121]\<close>.

  The attributes of a \<open>Contact\<close> are not typed at run time: \<open>index\<close> is an \<open>int\<close> when
  the contact is built by \<open>_add_contact\<close> or renumbered by \<open>_update_indexes\<close>, a \<open>str\<close>
  when it is read from the file, and any attribute is \<open>None\<close> when \<open>csv.DictReader\<close> fills
  a short row. The three kinds of value are the constructors of \<open>pyval\<close>.
\<close>

type_synonym pystr = "nat list"

datatype pyval = PNone | PInt int | PStr pystr

datatype error = AttributeError | KeyError | ValueError | IndexError | TypeError
  | EOFError | CsvError

text \<open>Truth value of an object, as \<open>if not x\<close> and \<open>if x\<close> test it.\<close>

fun truthy :: "pyval \<Rightarrow> bool" where
  "truthy PNone = False"
| "truthy (PInt i) = (i \<noteq> 0)"
| "truthy (PStr s) = (s \<noteq> [])"

text \<open>\<open>str(n)\<close> for an integer: its decimal digits, with a minus sign when negative.\<close>

fun digits :: "nat \<Rightarrow> pystr" where
  "digits n = (if n < 10 then [48 + n] else digits (n div 10) @ [48 + n mod 10])"

definition str_int :: "int \<Rightarrow> pystr" where
  "str_int i = (if i < 0 then 45 # digits (nat (- i)) else digits (nat i))"

text \<open>\<open>str(x)\<close> as \<open>map(str, ...)\<close> applies it in \<open>add_one\<close>: \<open>None\<close> prints as \<open>'None'\<close>.\<close>

fun py_str :: "pyval \<Rightarrow> pystr" where
  "py_str PNone = [78, 111, 110, 101]"
| "py_str (PInt i) = str_int i"
| "py_str (PStr s) = s"

text \<open>
  The properties of characters are tables of ranges of code points, in increasing order:
  those of the Unicode database 14.0, which Python 3.11 carries. The characters below
  128 are decided without the tables.
\<close>

fun in_ranges :: "nat \<Rightarrow> (nat \<times> nat) list \<Rightarrow> bool" where
  "in_ranges c [] = False"
| "in_ranges c (r # rs) = (if fst r \<le> c \<and> c \<le> snd r then True else in_ranges c rs)"

text \<open>
  \<open>str.isnumeric\<close>: the string is not empty and every character has a numeric value
  (digits of any script, superscripts, fractions, letter-like numbers).
\<close>

definition numeric_ranges :: "(nat \<times> nat) list" where
  "numeric_ranges =
     [(178, 179), (185, 185), (188, 190), (1632, 1641), (1776, 1785), (1984, 1993),
      (2406, 2415), (2534, 2543), (2548, 2553), (2662, 2671), (2790, 2799), (2918, 2927),
      (2930, 2935), (3046, 3058), (3174, 3183), (3192, 3198), (3302, 3311), (3416, 3422),
      (3430, 3448), (3558, 3567), (3664, 3673), (3792, 3801), (3872, 3891), (4160, 4169),
      (4240, 4249), (4969, 4988), (5870, 5872), (6112, 6121), (6128, 6137), (6160, 6169),
      (6470, 6479), (6608, 6618), (6784, 6793), (6800, 6809), (6992, 7001), (7088, 7097),
      (7232, 7241), (7248, 7257), (8304, 8304), (8308, 8313), (8320, 8329), (8528, 8578),
      (8581, 8585), (9312, 9371), (9450, 9471), (10102, 10131), (11517, 11517),
      (12295, 12295), (12321, 12329), (12344, 12346), (12690, 12693), (12832, 12841),
      (12872, 12879), (12881, 12895), (12928, 12937), (12977, 12991), (13317, 13317),
      (13443, 13443), (14378, 14378), (15181, 15181), (19968, 19968), (19971, 19971),
      (19975, 19975), (19977, 19977), (20061, 20061), (20108, 20108), (20116, 20116),
      (20118, 20118), (20159, 20160), (20191, 20191), (20200, 20200), (20237, 20237),
      (20336, 20336), (20740, 20740), (20806, 20806), (20841, 20841), (20843, 20843),
      (20845, 20845), (21313, 21313), (21315, 21317), (21324, 21324), (21441, 21444),
      (22235, 22235), (22769, 22769), (22777, 22777), (24186, 24186), (24318, 24319),
      (24332, 24334), (24336, 24336), (25342, 25342), (25420, 25420), (26578, 26578),
      (28422, 28422), (29590, 29590), (30334, 30334), (32902, 32902), (33836, 33836),
      (36014, 36014), (36019, 36019), (36144, 36144), (38433, 38433), (38470, 38470),
      (38476, 38476), (38520, 38520), (38646, 38646), (42528, 42537), (42726, 42735),
      (43056, 43061), (43216, 43225), (43264, 43273), (43472, 43481), (43504, 43513),
      (43600, 43609), (44016, 44025), (63851, 63851), (63859, 63859), (63864, 63864),
      (63922, 63922), (63953, 63953), (63955, 63955), (63997, 63997), (65296, 65305),
      (65799, 65843), (65856, 65912), (65930, 65931), (66273, 66299), (66336, 66339),
      (66369, 66369), (66378, 66378), (66513, 66517), (66720, 66729), (67672, 67679),
      (67705, 67711), (67751, 67759), (67835, 67839), (67862, 67867), (68028, 68029),
      (68032, 68047), (68050, 68095), (68160, 68168), (68221, 68222), (68253, 68255),
      (68331, 68335), (68440, 68447), (68472, 68479), (68521, 68527), (68858, 68863),
      (68912, 68921), (69216, 69246), (69405, 69414), (69457, 69460), (69573, 69579),
      (69714, 69743), (69872, 69881), (69942, 69951), (70096, 70105), (70113, 70132),
      (70384, 70393), (70736, 70745), (70864, 70873), (71248, 71257), (71360, 71369),
      (71472, 71483), (71904, 71922), (72016, 72025), (72784, 72812), (73040, 73049),
      (73120, 73129), (73664, 73684), (74752, 74862), (92768, 92777), (92864, 92873),
      (93008, 93017), (93019, 93025), (93824, 93846), (119520, 119539), (119648, 119672),
      (120782, 120831), (123200, 123209), (123632, 123641), (125127, 125135),
      (125264, 125273), (126065, 126123), (126125, 126127), (126129, 126132),
      (126209, 126253), (126255, 126269), (127232, 127244), (130032, 130041),
      (131073, 131073), (131172, 131172), (131298, 131298), (131361, 131361),
      (133418, 133418), (133507, 133507), (133516, 133516), (133532, 133532),
      (133866, 133866), (133885, 133885), (133913, 133913), (140176, 140176),
      (141720, 141720), (146203, 146203), (156269, 156269), (194704, 194704)]"

definition isnumeric_char :: "nat \<Rightarrow> bool" where
  "isnumeric_char c = (if c < 128 then 48 \<le> c \<and> c \<le> 57 else in_ranges c numeric_ranges)"

definition isnumeric :: "pystr \<Rightarrow> bool" where
  "isnumeric s = (s \<noteq> [] \<and> list_all isnumeric_char s)"

text \<open>
  \<open>int(s)\<close> on a string that is numeric. The decimal digits of the scripts come in blocks
  of ten, \<open>0\<close> to \<open>9\<close>; \<open>decimal_zeros\<close> lists the zeros. A character without decimal value
  raises \<open>ValueError\<close>, and so does a string of more digits than the interpreter's limit
  for the conversion of strings to integers.
\<close>

definition decimal_zeros :: "nat list" where
  "decimal_zeros =
     [1632, 1776, 1984, 2406, 2534, 2662, 2790, 2918, 3046, 3174, 3302, 3430, 3558, 3664,
      3792, 3872, 4160, 4240, 6112, 6160, 6470, 6608, 6784, 6800, 6992, 7088, 7232, 7248,
      42528, 43216, 43264, 43472, 43504, 43600, 44016, 65296, 66720, 68912, 69734, 69872,
      69942, 70096, 70384, 70736, 70864, 71248, 71360, 71472, 71904, 72016, 72784, 73040,
      73120, 92768, 92864, 93008, 120782, 120792, 120802, 120812, 120822, 123200, 123632,
      125264, 130032]"

fun decimal_in :: "nat \<Rightarrow> nat list \<Rightarrow> nat option" where
  "decimal_in c [] = None"
| "decimal_in c (z # zs) = (if z \<le> c \<and> c \<le> z + 9 then Some (c - z) else decimal_in c zs)"

definition decimal :: "nat \<Rightarrow> nat option" where
  "decimal c =
     (if c < 128 then (if 48 \<le> c \<and> c \<le> 57 then Some (c - 48) else None)
      else decimal_in c decimal_zeros)"

definition max_str_digits :: nat where
  "max_str_digits = 4300"

definition int_of_str :: "pystr \<Rightarrow> int" where
  "int_of_str s =
     foldl (\<lambda>a c. 10 * a + int (case decimal c of None \<Rightarrow> 0 | Some d \<Rightarrow> d)) 0 s"

definition int_str :: "pystr \<Rightarrow> error + int" where
  "int_str s =
     (if list_ex (\<lambda>c. decimal c = None) s then Inl ValueError
      else if length s > max_str_digits then Inl ValueError
      else Inr (int_of_str s))"

text \<open>
  \<open>str.lower\<close>. A run \<open>(a, b, step, t)\<close> of \<open>lower_runs\<close> maps the characters
  \<open>a, a + step, ..., b\<close> to \<open>t, t + step, ...\<close>; a character in no run is its own lower
  case. The capital I with dot above (304) becomes two characters. The capital sigma
  (931) becomes the final sigma (962) when a cased character stands before it and none
  after it, characters that case ignores being skipped on both sides, and the small
  sigma (963) otherwise. \<open>cased_ranges\<close> holds the cased characters that case does not
  ignore.
\<close>

definition lower_runs :: "(nat \<times> nat \<times> nat \<times> nat) list" where
  "lower_runs =
     [(192, 214, 1, 224), (216, 222, 1, 248), (256, 302, 2, 257), (306, 310, 2, 307),
      (313, 327, 2, 314), (330, 374, 2, 331), (376, 376, 1, 255), (377, 381, 2, 378),
      (385, 385, 1, 595), (386, 388, 2, 387), (390, 390, 1, 596), (391, 391, 1, 392),
      (393, 394, 1, 598), (395, 395, 1, 396), (398, 398, 1, 477), (399, 399, 1, 601),
      (400, 400, 1, 603), (401, 401, 1, 402), (403, 403, 1, 608), (404, 404, 1, 611),
      (406, 406, 1, 617), (407, 407, 1, 616), (408, 408, 1, 409), (412, 412, 1, 623),
      (413, 413, 1, 626), (415, 415, 1, 629), (416, 420, 2, 417), (422, 422, 1, 640),
      (423, 423, 1, 424), (425, 425, 1, 643), (428, 428, 1, 429), (430, 430, 1, 648),
      (431, 431, 1, 432), (433, 434, 1, 650), (435, 437, 2, 436), (439, 439, 1, 658),
      (440, 440, 1, 441), (444, 444, 1, 445), (452, 452, 1, 454), (453, 453, 1, 454),
      (455, 455, 1, 457), (456, 456, 1, 457), (458, 458, 1, 460), (459, 475, 2, 460),
      (478, 494, 2, 479), (497, 497, 1, 499), (498, 500, 2, 499), (502, 502, 1, 405),
      (503, 503, 1, 447), (504, 542, 2, 505), (544, 544, 1, 414), (546, 562, 2, 547),
      (570, 570, 1, 11365), (571, 571, 1, 572), (573, 573, 1, 410), (574, 574, 1, 11366),
      (577, 577, 1, 578), (579, 579, 1, 384), (580, 580, 1, 649), (581, 581, 1, 652),
      (582, 590, 2, 583), (880, 882, 2, 881), (886, 886, 1, 887), (895, 895, 1, 1011),
      (902, 902, 1, 940), (904, 906, 1, 941), (908, 908, 1, 972), (910, 911, 1, 973),
      (913, 929, 1, 945), (932, 939, 1, 964), (975, 975, 1, 983), (984, 1006, 2, 985),
      (1012, 1012, 1, 952), (1015, 1015, 1, 1016), (1017, 1017, 1, 1010),
      (1018, 1018, 1, 1019), (1021, 1023, 1, 891), (1024, 1039, 1, 1104),
      (1040, 1071, 1, 1072), (1120, 1152, 2, 1121), (1162, 1214, 2, 1163),
      (1216, 1216, 1, 1231), (1217, 1229, 2, 1218), (1232, 1326, 2, 1233),
      (1329, 1366, 1, 1377), (4256, 4293, 1, 11520), (4295, 4295, 1, 11559),
      (4301, 4301, 1, 11565), (5024, 5103, 1, 43888), (5104, 5109, 1, 5112),
      (7312, 7354, 1, 4304), (7357, 7359, 1, 4349), (7680, 7828, 2, 7681),
      (7838, 7838, 1, 223), (7840, 7934, 2, 7841), (7944, 7951, 1, 7936),
      (7960, 7965, 1, 7952), (7976, 7983, 1, 7968), (7992, 7999, 1, 7984),
      (8008, 8013, 1, 8000), (8025, 8031, 2, 8017), (8040, 8047, 1, 8032),
      (8072, 8079, 1, 8064), (8088, 8095, 1, 8080), (8104, 8111, 1, 8096),
      (8120, 8121, 1, 8112), (8122, 8123, 1, 8048), (8124, 8124, 1, 8115),
      (8136, 8139, 1, 8050), (8140, 8140, 1, 8131), (8152, 8153, 1, 8144),
      (8154, 8155, 1, 8054), (8168, 8169, 1, 8160), (8170, 8171, 1, 8058),
      (8172, 8172, 1, 8165), (8184, 8185, 1, 8056), (8186, 8187, 1, 8060),
      (8188, 8188, 1, 8179), (8486, 8486, 1, 969), (8490, 8490, 1, 107),
      (8491, 8491, 1, 229), (8498, 8498, 1, 8526), (8544, 8559, 1, 8560),
      (8579, 8579, 1, 8580), (9398, 9423, 1, 9424), (11264, 11311, 1, 11312),
      (11360, 11360, 1, 11361), (11362, 11362, 1, 619), (11363, 11363, 1, 7549),
      (11364, 11364, 1, 637), (11367, 11371, 2, 11368), (11373, 11373, 1, 593),
      (11374, 11374, 1, 625), (11375, 11375, 1, 592), (11376, 11376, 1, 594),
      (11378, 11378, 1, 11379), (11381, 11381, 1, 11382), (11390, 11391, 1, 575),
      (11392, 11490, 2, 11393), (11499, 11501, 2, 11500), (11506, 11506, 1, 11507),
      (42560, 42604, 2, 42561), (42624, 42650, 2, 42625), (42786, 42798, 2, 42787),
      (42802, 42862, 2, 42803), (42873, 42875, 2, 42874), (42877, 42877, 1, 7545),
      (42878, 42886, 2, 42879), (42891, 42891, 1, 42892), (42893, 42893, 1, 613),
      (42896, 42898, 2, 42897), (42902, 42920, 2, 42903), (42922, 42922, 1, 614),
      (42923, 42923, 1, 604), (42924, 42924, 1, 609), (42925, 42925, 1, 620),
      (42926, 42926, 1, 618), (42928, 42928, 1, 670), (42929, 42929, 1, 647),
      (42930, 42930, 1, 669), (42931, 42931, 1, 43859), (42932, 42946, 2, 42933),
      (42948, 42948, 1, 42900), (42949, 42949, 1, 642), (42950, 42950, 1, 7566),
      (42951, 42953, 2, 42952), (42960, 42960, 1, 42961), (42966, 42968, 2, 42967),
      (42997, 42997, 1, 42998), (65313, 65338, 1, 65345), (66560, 66599, 1, 66600),
      (66736, 66771, 1, 66776), (66928, 66964, 2, 66967), (66929, 66937, 2, 66968),
      (66941, 66953, 2, 66980), (66957, 66961, 2, 66996), (66965, 66965, 1, 67004),
      (68736, 68786, 1, 68800), (71840, 71871, 1, 71872), (93760, 93791, 1, 93792),
      (125184, 125217, 1, 125218)]"

fun lower_in :: "nat \<Rightarrow> (nat \<times> nat \<times> nat \<times> nat) list \<Rightarrow> nat" where
  "lower_in c [] = c"
| "lower_in c ((a, b, step, t) # rs) =
     (if a \<le> c \<and> c \<le> b \<and> (c - a) mod step = 0 then t + (c - a) else lower_in c rs)"

definition lower_char :: "nat \<Rightarrow> pystr" where
  "lower_char c =
     (if c < 128 then (if 65 \<le> c \<and> c \<le> 90 then [c + 32] else [c])
      else if c = 304 then [105, 775]
      else [lower_in c lower_runs])"

definition case_ignorable_ranges :: "(nat \<times> nat) list" where
  "case_ignorable_ranges =
     [(39, 39), (46, 46), (58, 58), (94, 94), (96, 96), (168, 168), (173, 173), (175, 175),
      (180, 180), (183, 184), (688, 879), (884, 885), (890, 890), (900, 901), (903, 903),
      (1155, 1161), (1369, 1369), (1375, 1375), (1425, 1469), (1471, 1471), (1473, 1474),
      (1476, 1477), (1479, 1479), (1524, 1524), (1536, 1541), (1552, 1562), (1564, 1564),
      (1600, 1600), (1611, 1631), (1648, 1648), (1750, 1757), (1759, 1768), (1770, 1773),
      (1807, 1807), (1809, 1809), (1840, 1866), (1958, 1968), (2027, 2037), (2042, 2042),
      (2045, 2045), (2070, 2093), (2137, 2139), (2184, 2184), (2192, 2193), (2200, 2207),
      (2249, 2306), (2362, 2362), (2364, 2364), (2369, 2376), (2381, 2381), (2385, 2391),
      (2402, 2403), (2417, 2417), (2433, 2433), (2492, 2492), (2497, 2500), (2509, 2509),
      (2530, 2531), (2558, 2558), (2561, 2562), (2620, 2620), (2625, 2626), (2631, 2632),
      (2635, 2637), (2641, 2641), (2672, 2673), (2677, 2677), (2689, 2690), (2748, 2748),
      (2753, 2757), (2759, 2760), (2765, 2765), (2786, 2787), (2810, 2815), (2817, 2817),
      (2876, 2876), (2879, 2879), (2881, 2884), (2893, 2893), (2901, 2902), (2914, 2915),
      (2946, 2946), (3008, 3008), (3021, 3021), (3072, 3072), (3076, 3076), (3132, 3132),
      (3134, 3136), (3142, 3144), (3146, 3149), (3157, 3158), (3170, 3171), (3201, 3201),
      (3260, 3260), (3263, 3263), (3270, 3270), (3276, 3277), (3298, 3299), (3328, 3329),
      (3387, 3388), (3393, 3396), (3405, 3405), (3426, 3427), (3457, 3457), (3530, 3530),
      (3538, 3540), (3542, 3542), (3633, 3633), (3636, 3642), (3654, 3662), (3761, 3761),
      (3764, 3772), (3782, 3782), (3784, 3789), (3864, 3865), (3893, 3893), (3895, 3895),
      (3897, 3897), (3953, 3966), (3968, 3972), (3974, 3975), (3981, 3991), (3993, 4028),
      (4038, 4038), (4141, 4144), (4146, 4151), (4153, 4154), (4157, 4158), (4184, 4185),
      (4190, 4192), (4209, 4212), (4226, 4226), (4229, 4230), (4237, 4237), (4253, 4253),
      (4348, 4348), (4957, 4959), (5906, 5908), (5938, 5939), (5970, 5971), (6002, 6003),
      (6068, 6069), (6071, 6077), (6086, 6086), (6089, 6099), (6103, 6103), (6109, 6109),
      (6155, 6159), (6211, 6211), (6277, 6278), (6313, 6313), (6432, 6434), (6439, 6440),
      (6450, 6450), (6457, 6459), (6679, 6680), (6683, 6683), (6742, 6742), (6744, 6750),
      (6752, 6752), (6754, 6754), (6757, 6764), (6771, 6780), (6783, 6783), (6823, 6823),
      (6832, 6862), (6912, 6915), (6964, 6964), (6966, 6970), (6972, 6972), (6978, 6978),
      (7019, 7027), (7040, 7041), (7074, 7077), (7080, 7081), (7083, 7085), (7142, 7142),
      (7144, 7145), (7149, 7149), (7151, 7153), (7212, 7219), (7222, 7223), (7288, 7293),
      (7376, 7378), (7380, 7392), (7394, 7400), (7405, 7405), (7412, 7412), (7416, 7417),
      (7468, 7530), (7544, 7544), (7579, 7679), (8125, 8125), (8127, 8129), (8141, 8143),
      (8157, 8159), (8173, 8175), (8189, 8190), (8203, 8207), (8216, 8217), (8228, 8228),
      (8231, 8231), (8234, 8238), (8288, 8292), (8294, 8303), (8305, 8305), (8319, 8319),
      (8336, 8348), (8400, 8432), (11388, 11389), (11503, 11505), (11631, 11631),
      (11647, 11647), (11744, 11775), (11823, 11823), (12293, 12293), (12330, 12333),
      (12337, 12341), (12347, 12347), (12441, 12446), (12540, 12542), (40981, 40981),
      (42232, 42237), (42508, 42508), (42607, 42610), (42612, 42621), (42623, 42623),
      (42652, 42655), (42736, 42737), (42752, 42785), (42864, 42864), (42888, 42890),
      (42994, 42996), (43000, 43001), (43010, 43010), (43014, 43014), (43019, 43019),
      (43045, 43046), (43052, 43052), (43204, 43205), (43232, 43249), (43263, 43263),
      (43302, 43309), (43335, 43345), (43392, 43394), (43443, 43443), (43446, 43449),
      (43452, 43453), (43471, 43471), (43493, 43494), (43561, 43566), (43569, 43570),
      (43573, 43574), (43587, 43587), (43596, 43596), (43632, 43632), (43644, 43644),
      (43696, 43696), (43698, 43700), (43703, 43704), (43710, 43711), (43713, 43713),
      (43741, 43741), (43756, 43757), (43763, 43764), (43766, 43766), (43867, 43871),
      (43881, 43883), (44005, 44005), (44008, 44008), (44013, 44013), (64286, 64286),
      (64434, 64450), (65024, 65039), (65043, 65043), (65056, 65071), (65106, 65106),
      (65109, 65109), (65279, 65279), (65287, 65287), (65294, 65294), (65306, 65306),
      (65342, 65342), (65344, 65344), (65392, 65392), (65438, 65439), (65507, 65507),
      (65529, 65531), (66045, 66045), (66272, 66272), (66422, 66426), (67456, 67461),
      (67463, 67504), (67506, 67514), (68097, 68099), (68101, 68102), (68108, 68111),
      (68152, 68154), (68159, 68159), (68325, 68326), (68900, 68903), (69291, 69292),
      (69446, 69456), (69506, 69509), (69633, 69633), (69688, 69702), (69744, 69744),
      (69747, 69748), (69759, 69761), (69811, 69814), (69817, 69818), (69821, 69821),
      (69826, 69826), (69837, 69837), (69888, 69890), (69927, 69931), (69933, 69940),
      (70003, 70003), (70016, 70017), (70070, 70078), (70089, 70092), (70095, 70095),
      (70191, 70193), (70196, 70196), (70198, 70199), (70206, 70206), (70367, 70367),
      (70371, 70378), (70400, 70401), (70459, 70460), (70464, 70464), (70502, 70508),
      (70512, 70516), (70712, 70719), (70722, 70724), (70726, 70726), (70750, 70750),
      (70835, 70840), (70842, 70842), (70847, 70848), (70850, 70851), (71090, 71093),
      (71100, 71101), (71103, 71104), (71132, 71133), (71219, 71226), (71229, 71229),
      (71231, 71232), (71339, 71339), (71341, 71341), (71344, 71349), (71351, 71351),
      (71453, 71455), (71458, 71461), (71463, 71467), (71727, 71735), (71737, 71738),
      (71995, 71996), (71998, 71998), (72003, 72003), (72148, 72151), (72154, 72155),
      (72160, 72160), (72193, 72202), (72243, 72248), (72251, 72254), (72263, 72263),
      (72273, 72278), (72281, 72283), (72330, 72342), (72344, 72345), (72752, 72758),
      (72760, 72765), (72767, 72767), (72850, 72871), (72874, 72880), (72882, 72883),
      (72885, 72886), (73009, 73014), (73018, 73018), (73020, 73021), (73023, 73029),
      (73031, 73031), (73104, 73105), (73109, 73109), (73111, 73111), (73459, 73460),
      (78896, 78904), (92912, 92916), (92976, 92982), (92992, 92995), (94031, 94031),
      (94095, 94111), (94176, 94177), (94179, 94180), (110576, 110579), (110581, 110587),
      (110589, 110590), (113821, 113822), (113824, 113827), (118528, 118573),
      (118576, 118598), (119143, 119145), (119155, 119170), (119173, 119179),
      (119210, 119213), (119362, 119364), (121344, 121398), (121403, 121452),
      (121461, 121461), (121476, 121476), (121499, 121503), (121505, 121519),
      (122880, 122886), (122888, 122904), (122907, 122913), (122915, 122916),
      (122918, 122922), (123184, 123197), (123566, 123566), (123628, 123631),
      (125136, 125142), (125252, 125259), (127995, 127999), (917505, 917505),
      (917536, 917631), (917760, 917999)]"

definition cased_ranges :: "(nat \<times> nat) list" where
  "cased_ranges =
     [(65, 90), (97, 122), (170, 170), (181, 181), (186, 186), (192, 214), (216, 246),
      (248, 442), (444, 447), (452, 659), (661, 687), (880, 883), (886, 887), (891, 893),
      (895, 895), (902, 902), (904, 906), (908, 908), (910, 929), (931, 1013),
      (1015, 1153), (1162, 1327), (1329, 1366), (1376, 1416), (4256, 4293), (4295, 4295),
      (4301, 4301), (4304, 4346), (4349, 4351), (5024, 5109), (5112, 5117), (7296, 7304),
      (7312, 7354), (7357, 7359), (7424, 7467), (7531, 7543), (7545, 7578), (7680, 7957),
      (7960, 7965), (7968, 8005), (8008, 8013), (8016, 8023), (8025, 8025), (8027, 8027),
      (8029, 8029), (8031, 8061), (8064, 8116), (8118, 8124), (8126, 8126), (8130, 8132),
      (8134, 8140), (8144, 8147), (8150, 8155), (8160, 8172), (8178, 8180), (8182, 8188),
      (8450, 8450), (8455, 8455), (8458, 8467), (8469, 8469), (8473, 8477), (8484, 8484),
      (8486, 8486), (8488, 8488), (8490, 8493), (8495, 8500), (8505, 8505), (8508, 8511),
      (8517, 8521), (8526, 8526), (8544, 8575), (8579, 8580), (9398, 9449), (11264, 11387),
      (11390, 11492), (11499, 11502), (11506, 11507), (11520, 11557), (11559, 11559),
      (11565, 11565), (42560, 42605), (42624, 42651), (42786, 42863), (42865, 42887),
      (42891, 42894), (42896, 42954), (42960, 42961), (42963, 42963), (42965, 42969),
      (42997, 42998), (43002, 43002), (43824, 43866), (43872, 43880), (43888, 43967),
      (64256, 64262), (64275, 64279), (65313, 65338), (65345, 65370), (66560, 66639),
      (66736, 66771), (66776, 66811), (66928, 66938), (66940, 66954), (66956, 66962),
      (66964, 66965), (66967, 66977), (66979, 66993), (66995, 67001), (67003, 67004),
      (68736, 68786), (68800, 68850), (71840, 71903), (93760, 93823), (119808, 119892),
      (119894, 119964), (119966, 119967), (119970, 119970), (119973, 119974),
      (119977, 119980), (119982, 119993), (119995, 119995), (119997, 120003),
      (120005, 120069), (120071, 120074), (120077, 120084), (120086, 120092),
      (120094, 120121), (120123, 120126), (120128, 120132), (120134, 120134),
      (120138, 120144), (120146, 120485), (120488, 120512), (120514, 120538),
      (120540, 120570), (120572, 120596), (120598, 120628), (120630, 120654),
      (120656, 120686), (120688, 120712), (120714, 120744), (120746, 120770),
      (120772, 120779), (122624, 122633), (122635, 122654), (125184, 125251),
      (127280, 127305), (127312, 127337), (127344, 127369)]"

definition final_sigma :: "pystr \<Rightarrow> pystr \<Rightarrow> bool" where
  "final_sigma prev rest =
     ((case dropWhile (\<lambda>c. in_ranges c case_ignorable_ranges) prev of
         [] \<Rightarrow> False
       | p # ps \<Rightarrow> in_ranges p cased_ranges)
      \<and> (case dropWhile (\<lambda>c. in_ranges c case_ignorable_ranges) rest of
            [] \<Rightarrow> True
          | n # ns \<Rightarrow> \<not> in_ranges n cased_ranges))"

text \<open>
  \<open>lower_from prev s\<close> lowers \<open>s\<close>; \<open>prev\<close> holds the characters before it, the nearest
  first.
\<close>

fun lower_from :: "pystr \<Rightarrow> pystr \<Rightarrow> pystr" where
  "lower_from prev [] = []"
| "lower_from prev (c # cs) =
     (if c = 931 then [if final_sigma prev cs then 962 else 963] else lower_char c)
       @ lower_from (c # prev) cs"

definition lower :: "pystr \<Rightarrow> pystr" where
  "lower s = lower_from [] s"

text \<open>\<open>value.lower()\<close> on an attribute: only a \<open>str\<close> has the method.\<close>

fun py_lower :: "pyval \<Rightarrow> error + pystr" where
  "py_lower (PStr s) = Inr (lower s)"
| "py_lower PNone = Inl AttributeError"
| "py_lower (PInt i) = Inl AttributeError"

text \<open>\<open>str.split()\<close> without arguments: the runs of non-whitespace characters.\<close>

definition isspace :: "nat \<Rightarrow> bool" where
  "isspace c = ((9 \<le> c \<and> c \<le> 13) \<or> (28 \<le> c \<and> c \<le> 32) \<or> c = 133 \<or> c = 160
     \<or> c = 5760 \<or> (8192 \<le> c \<and> c \<le> 8202) \<or> c = 8232 \<or> c = 8233 \<or> c = 8239
     \<or> c = 8287 \<or> c = 12288)"

fun split_acc :: "pystr \<Rightarrow> pystr \<Rightarrow> pystr list" where
  "split_acc cur [] = (if cur = [] then [] else [cur])"
| "split_acc cur (c # cs) =
     (if isspace c then (if cur = [] then split_acc [] cs else cur # split_acc [] cs)
      else split_acc (cur @ [c]) cs)"

definition split :: "pystr \<Rightarrow> pystr list" where
  "split s = split_acc [] s"

section \<open>The field table and the contact\<close>

text \<open>
  \<open>field_map\<close> maps the menu numbers 1..7 to the attribute name (\<open>title_en\<close>) and the
  column title (\<open>title_ru\<close>). The attribute names are the constructors of \<open>field_name\<close>,
  so that \<open>getattr\<close> and \<open>setattr\<close> are total on them.
\<close>

datatype field_name = F_index | F_last_name | F_name | F_middle_name | F_organization
  | F_work_phone | F_private_phone

record field =
  title_en :: field_name
  title_ru :: pystr

definition field_items :: "(int \<times> field) list" where
  "field_items =
    [(1, \<lparr>title_en = F_index, title_ru = [8470]\<rparr>),
     (2, \<lparr>title_en = F_last_name, title_ru = [1060, 1072, 1084, 1080, 1083, 1080, 1103]\<rparr>),
     (3, \<lparr>title_en = F_name, title_ru = [1048, 1084, 1103]\<rparr>),
     (4, \<lparr>title_en = F_middle_name,
          title_ru = [1054, 1090, 1095, 1077, 1089, 1090, 1074, 1086]\<rparr>),
     (5, \<lparr>title_en = F_organization,
          title_ru = [1054, 1088, 1075, 1072, 1085, 1080, 1079, 1072, 1094, 1080, 1103]\<rparr>),
     (6, \<lparr>title_en = F_work_phone,
          title_ru = [1056, 1072, 1073, 1086, 1095, 1080, 1081, 32, 1090, 1077, 1083, 1077,
                      1092, 1086, 1085]\<rparr>),
     (7, \<lparr>title_en = F_private_phone,
          title_ru = [1051, 1080, 1095, 1085, 1099, 1081, 32, 1090, 1077, 1083, 1077, 1092,
                      1086, 1085]\<rparr>)]"

definition field_map :: "int \<rightharpoonup> field" where
  "field_map = map_of field_items"

definition csv_fields :: "pystr list" where
  "csv_fields = map (\<lambda>(k, f). title_ru f) field_items"

definition contact_fields :: "field_name list" where
  "contact_fields = map (\<lambda>(k, f). title_en f) field_items"

record contact =
  index :: pyval
  last_name :: pyval
  name :: pyval
  middle_name :: pyval
  organization :: pyval
  work_phone :: pyval
  private_phone :: pyval

text \<open>\<open>Contact(index=i)\<close>: the other attributes default to the empty string.\<close>

definition Contact :: "pyval \<Rightarrow> contact" where
  "Contact i = \<lparr>index = i, last_name = PStr [], name = PStr [], middle_name = PStr [],
     organization = PStr [], work_phone = PStr [], private_phone = PStr []\<rparr>"

fun getattr :: "contact \<Rightarrow> field_name \<Rightarrow> pyval" where
  "getattr c F_index = index c"
| "getattr c F_last_name = last_name c"
| "getattr c F_name = name c"
| "getattr c F_middle_name = middle_name c"
| "getattr c F_organization = organization c"
| "getattr c F_work_phone = work_phone c"
| "getattr c F_private_phone = private_phone c"

fun setattr :: "contact \<Rightarrow> field_name \<Rightarrow> pyval \<Rightarrow> contact" where
  "setattr c F_index v = c\<lparr>index := v\<rparr>"
| "setattr c F_last_name v = c\<lparr>last_name := v\<rparr>"
| "setattr c F_name v = c\<lparr>name := v\<rparr>"
| "setattr c F_middle_name v = c\<lparr>middle_name := v\<rparr>"
| "setattr c F_organization v = c\<lparr>organization := v\<rparr>"
| "setattr c F_work_phone v = c\<lparr>work_phone := v\<rparr>"
| "setattr c F_private_phone v = c\<lparr>private_phone := v\<rparr>"

text \<open>\<open>contact.__dict__.items()\<close> and \<open>Contact.data_row\<close>: the attributes in declaration order.\<close>

definition dict_items :: "contact \<Rightarrow> (field_name \<times> pyval) list" where
  "dict_items c = map (\<lambda>f. (f, getattr c f)) contact_fields"

definition data_row :: "contact \<Rightarrow> pyval list" where
  "data_row c = map snd (dict_items c)"

section \<open>The csv library: writer\<close>

text \<open>
  \<open>csv.writer\<close> with the default dialect (\<open>excel\<close>): delimiter \<open>,\<close> (44), quote character
  \<open>"\<close> (34) doubled inside a quoted field, minimal quoting, line terminator \<open>\r\n\<close>
  (13, 10). A field is quoted when it holds the delimiter, the quote character or a
  character of the line terminator. \<open>None\<close> is written as the empty field, a string as it
  is, any other object through \<open>str\<close>.
\<close>

fun join :: "pystr \<Rightarrow> pystr list \<Rightarrow> pystr" where
  "join sep [] = []"
| "join sep [x] = x"
| "join sep (x # y # ys) = x @ sep @ join sep (y # ys)"

definition special :: "nat \<Rightarrow> bool" where
  "special c = (c = 44 \<or> c = 34 \<or> c = 13 \<or> c = 10)"

fun join_append_data :: "pystr \<Rightarrow> pystr" where
  "join_append_data [] = []"
| "join_append_data (c # cs) = (if c = 34 then 34 # 34 # join_append_data cs
                               else c # join_append_data cs)"

definition join_append :: "pystr \<Rightarrow> pystr" where
  "join_append s = (if list_ex special s then 34 # join_append_data s @ [34] else s)"

fun field_text :: "pyval \<Rightarrow> pystr" where
  "field_text PNone = []"
| "field_text (PStr s) = s"
| "field_text (PInt i) = str_int i"

definition writerow :: "pyval list \<Rightarrow> pystr" where
  "writerow row =
     (let rec = join [44] (map (\<lambda>v. join_append (field_text v)) row)
      in (if row \<noteq> [] \<and> rec = [] then [34, 34] else rec) @ [13, 10])"

text \<open>
  A \<open>dict\<close> is the list of its items in insertion order; a later item with the same key
  replaces an earlier one.
\<close>

definition dict_get :: "('k \<times> 'v) list \<Rightarrow> 'k \<Rightarrow> 'v option" where
  "dict_get d k = map_of (rev d) k"

fun mapM :: "('a \<Rightarrow> error + 'b) \<Rightarrow> 'a list \<Rightarrow> error + 'b list" where
  "mapM f [] = Inr []"
| "mapM f (x # xs) =
     (case f x of Inl e \<Rightarrow> Inl e
      | Inr y \<Rightarrow> (case mapM f xs of Inl e \<Rightarrow> Inl e | Inr ys \<Rightarrow> Inr (y # ys)))"

text \<open>
  \<open>csv.DictWriter\<close>: \<open>_dict_to_list\<close> raises \<open>ValueError\<close> on a key that is not a field name
  and takes the values in the order of the field names, the empty string for a missing
  one; \<open>writeheader\<close> writes the field names themselves.
\<close>

definition dict_to_list :: "pystr list \<Rightarrow> (pystr \<times> pyval) list \<Rightarrow> error + pyval list" where
  "dict_to_list fieldnames rowdict =
     (if list_ex (\<lambda>k. k \<notin> set fieldnames) (map fst rowdict) then Inl ValueError
      else Inr (map (\<lambda>k. case dict_get rowdict k of None \<Rightarrow> PStr [] | Some v \<Rightarrow> v)
                 fieldnames))"

definition writeheader :: "pystr list \<Rightarrow> pystr" where
  "writeheader fieldnames = writerow (map PStr fieldnames)"

section \<open>The csv library: reader\<close>

text \<open>
  \<open>csv.reader\<close> is the state machine of the library's \<open>parse_process_char\<close> for the
  default dialect (no escape character, doubled quotes, not strict); the states for an
  escape character cannot be reached and are left out. \<open>EOL\<close> is the end-of-line event
  the reader processes after the last character of every line it is given. A field that
  grows beyond the field size limit raises \<open>csv.Error\<close>.
\<close>

datatype parser_state = START_RECORD | START_FIELD | IN_FIELD | IN_QUOTED_FIELD
  | QUOTE_IN_QUOTED_FIELD | EAT_CRNL

datatype event = Ch nat | EOL

record reader =
  r_state :: parser_state
  r_fields :: "pystr list"
  r_field :: pystr

definition field_limit :: nat where
  "field_limit = 131072"

definition parse_reset :: reader where
  "parse_reset = \<lparr>r_state = START_RECORD, r_fields = [], r_field = []\<rparr>"

definition parse_save_field :: "reader \<Rightarrow> reader" where
  "parse_save_field r = r\<lparr>r_fields := r_fields r @ [r_field r], r_field := []\<rparr>"

definition parse_add_char :: "reader \<Rightarrow> nat \<Rightarrow> error + reader" where
  "parse_add_char r c =
     (if length (r_field r) \<ge> field_limit then Inl CsvError
      else Inr (r\<lparr>r_field := r_field r @ [c]\<rparr>))"

definition set_state :: "parser_state \<Rightarrow> error + reader \<Rightarrow> error + reader" where
  "set_state s x = (case x of Inl e \<Rightarrow> Inl e | Inr r \<Rightarrow> Inr (r\<lparr>r_state := s\<rparr>))"

definition end_of_line :: "reader \<Rightarrow> event \<Rightarrow> error + reader" where
  "end_of_line r e =
     Inr ((parse_save_field r)\<lparr>r_state := (if e = EOL then START_RECORD else EAT_CRNL)\<rparr>)"

definition is_newline :: "event \<Rightarrow> bool" where
  "is_newline e = (e = Ch 10 \<or> e = Ch 13 \<or> e = EOL)"

definition start_field :: "reader \<Rightarrow> event \<Rightarrow> error + reader" where
  "start_field r e =
     (if is_newline e then end_of_line r e
      else if e = Ch 34 then Inr (r\<lparr>r_state := IN_QUOTED_FIELD\<rparr>)
      else if e = Ch 44 then Inr (parse_save_field r)
      else (case e of Ch c \<Rightarrow> set_state IN_FIELD (parse_add_char r c) | EOL \<Rightarrow> Inr r))"

definition parse_process_char :: "reader \<Rightarrow> event \<Rightarrow> error + reader" where
  "parse_process_char r e =
     (case r_state r of
        START_RECORD \<Rightarrow>
          (if e = EOL then Inr r
           else if e = Ch 10 \<or> e = Ch 13 then Inr (r\<lparr>r_state := EAT_CRNL\<rparr>)
           else start_field (r\<lparr>r_state := START_FIELD\<rparr>) e)
      | START_FIELD \<Rightarrow> start_field r e
      | IN_FIELD \<Rightarrow>
          (if is_newline e then end_of_line r e
           else if e = Ch 44 then Inr ((parse_save_field r)\<lparr>r_state := START_FIELD\<rparr>)
           else (case e of Ch c \<Rightarrow> parse_add_char r c | EOL \<Rightarrow> Inr r))
      | IN_QUOTED_FIELD \<Rightarrow>
          (if e = EOL then Inr r
           else if e = Ch 34 then Inr (r\<lparr>r_state := QUOTE_IN_QUOTED_FIELD\<rparr>)
           else (case e of Ch c \<Rightarrow> parse_add_char r c | EOL \<Rightarrow> Inr r))
      | QUOTE_IN_QUOTED_FIELD \<Rightarrow>
          (if e = Ch 34 then set_state IN_QUOTED_FIELD (parse_add_char r 34)
           else if e = Ch 44 then Inr ((parse_save_field r)\<lparr>r_state := START_FIELD\<rparr>)
           else if is_newline e then end_of_line r e
           else (case e of Ch c \<Rightarrow> set_state IN_FIELD (parse_add_char r c) | EOL \<Rightarrow> Inr r))
      | EAT_CRNL \<Rightarrow>
          (if e = Ch 10 \<or> e = Ch 13 then Inr r
           else if e = EOL then Inr (r\<lparr>r_state := START_RECORD\<rparr>)
           else Inl CsvError))"

text \<open>
  The rows the reader yields on a text, and the error that ends the iteration if there is
  one. The file object hands the text over line by line, a line ending after each
  \<open>\n\<close> (10) and at the end of the text; \<open>Reader_iternext\<close> feeds the characters of a line
  and then \<open>EOL\<close>, and yields the fields once the state is \<open>START_RECORD\<close> again, starting
  the next row from \<open>parse_reset\<close>. The flag says that the current line has characters
  already. At the end of the input an open field or an open quoted field is saved and
  the row yielded; otherwise the iteration stops.
\<close>

definition at_eof :: "reader \<Rightarrow> pystr list list \<times> error option" where
  "at_eof r =
     (if r_field r \<noteq> [] \<or> r_state r = IN_QUOTED_FIELD
      then ([r_fields (parse_save_field r)], None) else ([], None))"

definition yield :: "pystr list \<Rightarrow> pystr list list \<times> error option
    \<Rightarrow> pystr list list \<times> error option" where
  "yield row rest = (row # fst rest, snd rest)"

fun reader_rows :: "reader \<Rightarrow> bool \<Rightarrow> pystr \<Rightarrow> pystr list list \<times> error option" where
  "reader_rows r partial [] =
     (if partial then
        (case parse_process_char r EOL of
           Inl e \<Rightarrow> ([], Some e)
         | Inr r' \<Rightarrow> if r_state r' = START_RECORD then ([r_fields r'], None) else at_eof r')
      else at_eof r)"
| "reader_rows r partial (c # cs) =
     (case parse_process_char r (Ch c) of
        Inl e \<Rightarrow> ([], Some e)
      | Inr r' \<Rightarrow>
          if c = 10 then
            (case parse_process_char r' EOL of
               Inl e \<Rightarrow> ([], Some e)
             | Inr r'' \<Rightarrow>
                 if r_state r'' = START_RECORD
                 then yield (r_fields r'') (reader_rows parse_reset False cs)
                 else reader_rows r'' False cs)
          else reader_rows r' True cs)"

text \<open>
  A file opened for reading in text mode without \<open>newline\<close> translates \<open>\r\n\<close> and a lone
  \<open>\r\<close> to \<open>\n\<close>. Opened for writing on a POSIX system it writes the text as it is. The
  file's content is modelled as the text, decoded.
\<close>

fun universal_newlines :: "pystr \<Rightarrow> pystr" where
  "universal_newlines [] = []"
| "universal_newlines [c] = (if c = 13 then [10] else [c])"
| "universal_newlines (c # d # cs) =
     (if c = 13 then (if d = 10 then 10 # universal_newlines cs
                      else 10 # universal_newlines (d # cs))
      else c # universal_newlines (d # cs))"

definition csv_reader :: "pystr \<Rightarrow> pystr list list \<times> error option" where
  "csv_reader file = reader_rows parse_reset False (universal_newlines file)"

text \<open>
  \<open>csv.DictReader.__next__\<close>: the dict of a row pairs the field names with the values,
  and gives \<open>None\<close> to the field names a short row has no value for. (The surplus values
  of a long row go under the key \<open>None\<close>, which is no column title and is left out.)
\<close>

definition dict_row :: "pystr list \<Rightarrow> pystr list \<Rightarrow> (pystr \<times> pyval) list" where
  "dict_row fieldnames row =
     zip fieldnames (map PStr row) @ map (\<lambda>k. (k, PNone)) (drop (length row) fieldnames)"

section \<open>Storage\<close>

text \<open>\<open>CsvFileStorage._to_csv\<close>: the attributes of a contact under the column titles.\<close>

definition csv_field_map :: "field_name \<rightharpoonup> pystr" where
  "csv_field_map = dict_get (map (\<lambda>(k, f). (title_en f, title_ru f)) field_items)"

definition to_csv :: "contact \<Rightarrow> error + (pystr \<times> pyval) list" where
  "to_csv c = mapM (\<lambda>(k, v). case csv_field_map k of None \<Rightarrow> Inl KeyError
                                | Some t \<Rightarrow> Inr (t, v)) (dict_items c)"

text \<open>
  \<open>CsvFileStorage.save_all\<close>: the new content of the file, which replaces the old one.
\<close>

definition save_all :: "contact list \<Rightarrow> error + pystr" where
  "save_all contacts =
     (case mapM to_csv contacts of
        Inl e \<Rightarrow> Inl e
      | Inr rows \<Rightarrow>
          (case mapM (dict_to_list csv_fields) rows of
             Inl e \<Rightarrow> Inl e
           | Inr vals \<Rightarrow> Inr (writeheader csv_fields @ concat (map writerow vals))))"

text \<open>\<open>CsvFileStorage.add_one\<close>: the content of the file after the append.\<close>

definition add_one :: "pystr \<Rightarrow> contact \<Rightarrow> pystr" where
  "add_one file c = file @ join [44] (map py_str (data_row c))"

text \<open>
  \<open>CsvFileStorage._init_storage\<close>: a file that does not exist (\<open>None\<close>) is created with
  the header row.
\<close>

definition init_storage :: "pystr option \<Rightarrow> pystr" where
  "init_storage file = (case file of None \<Rightarrow> writeheader csv_fields | Some t \<Rightarrow> t)"

text \<open>
  \<open>CsvFileStorage.read_all\<close>. The first row the reader yields is the list of field
  names; the empty rows after it are skipped. Looking up a column title the field names
  lack raises \<open>KeyError\<close> at the first data row; an error of the reader is raised when the
  iteration reaches it, after the rows before it have been looked up.
\<close>

definition row_values :: "(pystr \<times> pyval) list \<Rightarrow> error + pyval list" where
  "row_values d =
     mapM (\<lambda>f. case dict_get d f of None \<Rightarrow> Inl KeyError | Some v \<Rightarrow> Inr v) csv_fields"

fun contact_of_values :: "pyval list \<Rightarrow> error + contact" where
  "contact_of_values [a, b, c, d, e, f, g] =
     Inr \<lparr>index = a, last_name = b, name = c, middle_name = d, organization = e,
          work_phone = f, private_phone = g\<rparr>"
| "contact_of_values vs = Inl TypeError"

definition read_all :: "pystr \<Rightarrow> error + contact list" where
  "read_all file =
     (case csv_reader file of
        ([], None) \<Rightarrow> Inr []
      | ([], Some e) \<Rightarrow> Inl e
      | (fieldnames # rows, err) \<Rightarrow>
          (case mapM (\<lambda>row. row_values (dict_row fieldnames row))
                     (filter (\<lambda>row. row \<noteq> []) rows) of
             Inl e \<Rightarrow> Inl e
           | Inr data \<Rightarrow>
               (case err of Some e \<Rightarrow> Inl e | None \<Rightarrow> mapM contact_of_values data)))"

section \<open>Console input and the formatters\<close>

text \<open>
  The console input is the list of the lines still to be read. \<open>input()\<close> takes the first
  line, or raises \<open>EOFError\<close> when there is none. What is printed is not modelled. Every
  operation returns its result or the exception it raised, together with the state and the
  input it leaves: what was changed before an exception stays changed.
\<close>

definition input :: "pystr list \<Rightarrow> (error + pystr) \<times> pystr list" where
  "input inp = (case inp of [] \<Rightarrow> (Inl EOFError, []) | a # rest \<Rightarrow> (Inr a, rest))"

text \<open>
  \<open>get_answer\<close>: the empty line returns \<open>None\<close>; a numeric line is converted to \<open>int\<close>,
  which may raise; an answer among the correct ones is returned, any other asks again.
  The correct answers (a list or a \<open>range\<close>) are the list of their values.
\<close>

fun get_answer :: "pyval list \<Rightarrow> pystr list \<Rightarrow> (error + pyval) \<times> pystr list" where
  "get_answer correct_answers [] = (Inl EOFError, [])"
| "get_answer correct_answers (a # inp) =
     (if a = [] then (Inr PNone, inp)
      else if isnumeric a then
        (case int_str a of
           Inl e \<Rightarrow> (Inl e, inp)
         | Inr n \<Rightarrow> if PInt n \<in> set correct_answers then (Inr (PInt n), inp)
                    else get_answer correct_answers inp)
      else if PStr a \<in> set correct_answers then (Inr (PStr a), inp)
      else get_answer correct_answers inp)"

definition DEFAULT_PAGE_SIZE :: int where
  "DEFAULT_PAGE_SIZE = 5"

datatype formatter = ConsoleTableFormatter | ConsoleVisitCardFormatter

definition get_page_size :: "pystr list \<Rightarrow> (error + pyval) \<times> pystr list" where
  "get_page_size inp =
     (case get_answer (map PInt [1..100]) inp of
        (Inl e, inp') \<Rightarrow> (Inl e, inp')
      | (Inr new_page_size, inp') \<Rightarrow>
          if \<not> truthy new_page_size then (Inr (PInt DEFAULT_PAGE_SIZE), inp')
          else (Inr new_page_size, inp'))"

text \<open>
  \<open>_print_card\<close> prints; it raises \<open>TypeError\<close> when it concatenates a title with an
  organization that is not a string.
\<close>

definition print_card :: "contact \<Rightarrow> error + unit" where
  "print_card c =
     (case organization c of
        PInt i \<Rightarrow> if i \<noteq> 0 then Inl TypeError else Inr ()
      | _ \<Rightarrow> Inr ())"

fun print_cards :: "contact list \<Rightarrow> error + unit" where
  "print_cards [] = Inr ()"
| "print_cards (c # cs) = (case print_card c of Inl e \<Rightarrow> Inl e | Inr u \<Rightarrow> print_cards cs)"

text \<open>
  \<open>print_contacts\<close> as the operations below call it, with \<open>paginate=False\<close>: the table asks
  for a page size when there are more contacts than the default page size, and reads no
  other input; the cards read none.
\<close>

definition print_contacts :: "formatter \<Rightarrow> contact list \<Rightarrow> pystr list
    \<Rightarrow> (error + unit) \<times> pystr list" where
  "print_contacts fmt cs inp =
     (case fmt of
        ConsoleTableFormatter \<Rightarrow>
          if int (length cs) > DEFAULT_PAGE_SIZE
          then (case get_page_size inp of
                  (Inl e, inp') \<Rightarrow> (Inl e, inp')
                | (Inr page_size, inp') \<Rightarrow> (Inr (), inp'))
          else (Inr (), inp)
      | ConsoleVisitCardFormatter \<Rightarrow> (print_cards cs, inp))"

section \<open>The phone book\<close>

record phonebook =
  contacts :: "contact list"
  last_index :: int
  formatter :: formatter
  storage :: pystr

type_synonym 'a outcome = "(error + 'a) \<times> phonebook \<times> pystr list"

text \<open>\<open>Phonebook.__init__\<close> on the content of the storage's file, and \<open>main\<close> up to the menu.\<close>

definition Phonebook :: "formatter \<Rightarrow> pystr \<Rightarrow> error + phonebook" where
  "Phonebook fmt file =
     (case read_all file of
        Inl e \<Rightarrow> Inl e
      | Inr cs \<Rightarrow> Inr \<lparr>contacts = cs, last_index = int (length cs), formatter = fmt,
                      storage = file\<rparr>)"

definition main :: "pystr option \<Rightarrow> error + phonebook" where
  "main file = Phonebook ConsoleTableFormatter (init_storage file)"

text \<open>
  The storage operations on the state. \<open>save_all\<close> opens the file for writing, which
  empties it, before it builds the rows.
\<close>

definition storage_save_all :: "phonebook \<Rightarrow> (error + unit) \<times> phonebook" where
  "storage_save_all pb =
     (case save_all (contacts pb) of
        Inl e \<Rightarrow> (Inl e, pb\<lparr>storage := []\<rparr>)
      | Inr text \<Rightarrow> (Inr (), pb\<lparr>storage := text\<rparr>))"

definition storage_add_one :: "contact \<Rightarrow> phonebook \<Rightarrow> phonebook" where
  "storage_add_one c pb = pb\<lparr>storage := add_one (storage pb) c\<rparr>"

text \<open>\<open>_update_indexes\<close>: \<open>enumerate(self._contacts, 1)\<close> numbers the contacts from 1.\<close>

definition update_indexes :: "phonebook \<Rightarrow> phonebook" where
  "update_indexes pb =
     pb\<lparr>contacts := map (\<lambda>(idx, c). c\<lparr>index := PInt (int idx)\<rparr>)
                        (zip [1..<Suc (length (contacts pb))] (contacts pb)),
        last_index := int (length (contacts pb))\<rparr>"

text \<open>
  \<open>_get_contact_by_index\<close> returns the contact object at the chosen place of the list, or
  \<open>None\<close> on an empty answer. The model returns the place, since the operations work on the
  object in the list.
\<close>

fun py_int :: "pyval \<Rightarrow> error + int" where
  "py_int (PInt i) = Inr i"
| "py_int (PStr s) = (if isnumeric s then int_str s else Inl ValueError)"
| "py_int PNone = Inl TypeError"

definition list_index :: "'a list \<Rightarrow> int \<Rightarrow> error + nat" where
  "list_index xs i =
     (if 0 \<le> i \<and> i < int (length xs) then Inr (nat i)
      else if - int (length xs) \<le> i \<and> i < 0 then Inr (nat (int (length xs) + i))
      else Inl IndexError)"

definition get_contact_by_index :: "phonebook \<Rightarrow> pystr list
    \<Rightarrow> (error + nat option) \<times> pystr list" where
  "get_contact_by_index pb inp =
     (case get_answer (map PInt [1..last_index pb]) inp of
        (Inl e, inp') \<Rightarrow> (Inl e, inp')
      | (Inr idx, inp') \<Rightarrow>
          if \<not> truthy idx then (Inr None, inp')
          else (case py_int idx of
                  Inl e \<Rightarrow> (Inl e, inp')
                | Inr i \<Rightarrow> (case list_index (contacts pb) (i - 1) of
                             Inl e \<Rightarrow> (Inl e, inp')
                           | Inr pos \<Rightarrow> (Inr (Some pos), inp'))))"

text \<open>
  \<open>_input_contact_data\<close>. In mode \<open>add\<close> the contact is appended to the list first. Then
  every field but \<open>index\<close> is asked for: an empty line keeps the value, \<open>---\<close> empties it,
  any other line replaces it. The contact is an object in the list, at place \<open>pos\<close> in
  mode \<open>edit\<close> and at the end in mode \<open>add\<close>, so the list holds the attributes set so far
  also when \<open>input\<close> raises.
\<close>

datatype mode = Edit | Add

fun input_fields :: "field list \<Rightarrow> contact \<Rightarrow> pystr list
    \<Rightarrow> error option \<times> contact \<times> pystr list" where
  "input_fields [] c inp = (None, c, inp)"
| "input_fields (f # fs) c inp =
     (if title_en f = F_index then input_fields fs c inp
      else (case inp of
              [] \<Rightarrow> (Some EOFError, c, [])
            | data # inp' \<Rightarrow>
                input_fields fs
                  (if data \<noteq> []
                   then setattr c (title_en f) (PStr (if data = [45, 45, 45] then [] else data))
                   else c) inp'))"

definition input_contact_data :: "contact \<Rightarrow> mode \<Rightarrow> nat \<Rightarrow> phonebook \<Rightarrow> pystr list
    \<Rightarrow> contact outcome" where
  "input_contact_data contact m pos pb inp =
     (let pb1 = (if m = Add then pb\<lparr>contacts := contacts pb @ [contact]\<rparr> else pb);
          place = (if m = Add then length (contacts pb) else pos)
      in (case input_fields (map snd field_items) contact inp of
            (err, c, inp') \<Rightarrow>
              (let pb2 = pb1\<lparr>contacts := (contacts pb1)[place := c]\<rparr>
               in (case err of Some e \<Rightarrow> (Inl e, pb2, inp') | None \<Rightarrow> (Inr c, pb2, inp')))))"

text \<open>\<open>_add_contact\<close>.\<close>

definition add_contact :: "phonebook \<Rightarrow> pystr list \<Rightarrow> unit outcome" where
  "add_contact pb inp =
     (let contact = Contact (PInt (last_index pb + 1))
      in (case input_contact_data contact Add 0 pb inp of
            (Inl e, pb', inp') \<Rightarrow> (Inl e, pb', inp')
          | (Inr c, pb', inp') \<Rightarrow>
              (Inr (), storage_add_one c (pb'\<lparr>last_index := last_index pb' + 1\<rparr>), inp')))"

text \<open>\<open>_change_contact\<close>.\<close>

definition change_contact :: "phonebook \<Rightarrow> pystr list \<Rightarrow> unit outcome" where
  "change_contact pb inp =
     (case get_contact_by_index pb inp of
        (Inl e, inp1) \<Rightarrow> (Inl e, pb, inp1)
      | (Inr None, inp1) \<Rightarrow> (Inr (), pb, inp1)
      | (Inr (Some pos), inp1) \<Rightarrow>
          (case print_contacts (formatter pb) [contacts pb ! pos] inp1 of
             (Inl e, inp2) \<Rightarrow> (Inl e, pb, inp2)
           | (Inr u, inp2) \<Rightarrow>
               (case input_contact_data (contacts pb ! pos) Edit pos pb inp2 of
                  (Inl e, pb', inp3) \<Rightarrow> (Inl e, pb', inp3)
                | (Inr c, pb', inp3) \<Rightarrow>
                    (case storage_save_all pb' of (r, pb'') \<Rightarrow> (r, pb'', inp3)))))"

text \<open>
  \<open>_delete_contact\<close>. The loop reads an answer and lowers it. A no answer returns. A yes
  answer removes the first contact of the list equal to the chosen one (\<open>list.remove\<close>
  raises \<open>ValueError\<close> when there is none), renumbers and saves; the loop then ends only
  if the answer is one of the four the \<open>while\<close> condition lists. Any other answer asks
  again.

  The chosen contact is an object. While it is in the list it is the element at its
  place, and is renumbered with the list; \<open>list.remove\<close> takes it out of the list unless an
  equal contact stands before it, in which case that one is taken out and the chosen one
  moves down a place. Once out of the list it keeps its attributes.
\<close>

definition no_answers :: "pystr list" where
  "no_answers = [ [110], [1085], [1085, 1077, 1090], [110, 111]]"

definition yes_answers :: "pystr list" where
  "yes_answers = [ [121], [1076], [1076, 1072], [121, 101, 115]]"

definition loop_answers :: "pystr list" where
  "loop_answers = [ [110], [1085], [121], [1076]]"

datatype chosen = InList nat | Removed contact

fun chosen_contact :: "contact list \<Rightarrow> chosen \<Rightarrow> contact" where
  "chosen_contact cs (InList pos) = cs ! pos"
| "chosen_contact cs (Removed c) = c"

fun after_remove :: "contact list \<Rightarrow> chosen \<Rightarrow> chosen" where
  "after_remove cs (InList pos) =
     (if cs ! pos \<in> set (take pos cs) then InList (pos - 1) else Removed (cs ! pos))"
| "after_remove cs (Removed c) = Removed c"

fun delete_loop :: "chosen \<Rightarrow> phonebook \<Rightarrow> pystr list \<Rightarrow> unit outcome" where
  "delete_loop contact pb [] = (Inl EOFError, pb, [])"
| "delete_loop contact pb (a # inp) =
     (if lower a \<in> set no_answers then (Inr (), pb, inp)
      else if lower a \<in> set yes_answers then
        (if chosen_contact (contacts pb) contact \<notin> set (contacts pb)
         then (Inl ValueError, pb, inp)
         else (case storage_save_all
                      (update_indexes
                         (pb\<lparr>contacts := remove1 (chosen_contact (contacts pb) contact)
                                             (contacts pb)\<rparr>)) of
                 (Inl e, pb') \<Rightarrow> (Inl e, pb', inp)
               | (Inr u, pb') \<Rightarrow>
                   if lower a \<in> set loop_answers then (Inr (), pb', inp)
                   else delete_loop (after_remove (contacts pb) contact) pb' inp))
      else delete_loop contact pb inp)"

definition delete_contact :: "phonebook \<Rightarrow> pystr list \<Rightarrow> unit outcome" where
  "delete_contact pb inp =
     (case get_contact_by_index pb inp of
        (Inl e, inp1) \<Rightarrow> (Inl e, pb, inp1)
      | (Inr None, inp1) \<Rightarrow> (Inr (), pb, inp1)
      | (Inr (Some pos), inp1) \<Rightarrow>
          (case print_contacts (formatter pb) [contacts pb ! pos] inp1 of
             (Inl e, inp2) \<Rightarrow> (Inl e, pb, inp2)
           | (Inr u, inp2) \<Rightarrow> delete_loop (InList pos) pb inp2))"

section \<open>Search\<close>

text \<open>\<open>_print_search_results\<close>.\<close>

definition print_search_results :: "phonebook \<Rightarrow> contact list \<Rightarrow> pystr list
    \<Rightarrow> unit outcome" where
  "print_search_results pb cs inp =
     (if cs = [] then (Inr (), pb, inp)
      else (case print_contacts (formatter pb) cs inp of (r, inp') \<Rightarrow> (r, pb, inp')))"

text \<open>
  The loops of \<open>_find_contacts_by_all_fields\<close>: for every contact and every attribute
  value, lower the value and test whether the search text occurs in it; \<open>x in y\<close> on
  strings is \<open>sublist\<close>. \<open>found_contacts\<close> is threaded through.
\<close>

fun all_fields_values :: "pystr \<Rightarrow> contact \<Rightarrow> pyval list \<Rightarrow> contact list
    \<Rightarrow> error + contact list" where
  "all_fields_values search c [] found = Inr found"
| "all_fields_values search c (v # vs) found =
     (case py_lower v of
        Inl e \<Rightarrow> Inl e
      | Inr t \<Rightarrow> all_fields_values search c vs
                  (if sublist search t \<and> c \<notin> set found then found @ [c] else found))"

fun all_fields_contacts :: "pystr \<Rightarrow> contact list \<Rightarrow> contact list
    \<Rightarrow> error + contact list" where
  "all_fields_contacts search [] found = Inr found"
| "all_fields_contacts search (c # cs) found =
     (case all_fields_values search c (data_row c) found of
        Inl e \<Rightarrow> Inl e
      | Inr found' \<Rightarrow> all_fields_contacts search cs found')"

definition find_contacts_by_all_fields :: "phonebook \<Rightarrow> pystr list \<Rightarrow> unit outcome" where
  "find_contacts_by_all_fields pb inp =
     (case input inp of
        (Inl e, inp1) \<Rightarrow> (Inl e, pb, inp1)
      | (Inr a, inp1) \<Rightarrow>
          (case all_fields_contacts (lower a) (contacts pb) [] of
             Inl e \<Rightarrow> (Inl e, pb, inp1)
           | Inr found_contacts \<Rightarrow> print_search_results pb found_contacts inp1))"

text \<open>
  \<open>_get_field_indexes\<close>: a line is accepted when every token is numeric and its number
  lies in \<open>range(max(field_map.keys()))\<close>. The tokens of \<open>split\<close> hold no whitespace, so
  \<open>strip\<close> leaves them as they are. \<open>field_tokens\<close> is the filter and the map over the
  tokens, which stop at the first token \<open>int\<close> raises on.
\<close>

definition field_range :: "int list" where
  "field_range = [0..Max (set (map fst field_items)) - 1]"

fun field_tokens :: "pystr list \<Rightarrow> error + int list" where
  "field_tokens [] = Inr []"
| "field_tokens (x # xs) =
     (if isnumeric x then
        (case int_str x of
           Inl e \<Rightarrow> Inl e
         | Inr n \<Rightarrow>
             if n \<in> set field_range
             then (case field_tokens xs of Inl e \<Rightarrow> Inl e | Inr ns \<Rightarrow> Inr (n # ns))
             else field_tokens xs)
      else field_tokens xs)"

fun get_field_indexes :: "pystr list \<Rightarrow> (error + int list) \<times> pystr list" where
  "get_field_indexes [] = (Inl EOFError, [])"
| "get_field_indexes (a # inp) =
     (case field_tokens (split a) of
        Inl e \<Rightarrow> (Inl e, inp)
      | Inr search_field_indexes \<Rightarrow>
          if length search_field_indexes \<noteq> length (split a) then get_field_indexes inp
          else (Inr search_field_indexes, inp))"

text \<open>\<open>_get_search_conditions\<close>; a \<open>SearchCondition\<close> is the pair of the field and the text.\<close>

type_synonym SearchCondition = "field_name \<times> pystr"

fun get_search_conditions :: "int list \<Rightarrow> pystr list
    \<Rightarrow> (error + SearchCondition list) \<times> pystr list" where
  "get_search_conditions [] inp = (Inr [], inp)"
| "get_search_conditions (f # fs) inp =
     (case field_map f of
        None \<Rightarrow> (Inl KeyError, inp)
      | Some fld \<Rightarrow>
          (case input inp of
             (Inl e, inp1) \<Rightarrow> (Inl e, inp1)
           | (Inr search_text, inp1) \<Rightarrow>
               (case get_search_conditions fs inp1 of
                  (Inl e, inp2) \<Rightarrow> (Inl e, inp2)
                | (Inr conds, inp2) \<Rightarrow> (Inr ((title_en fld, search_text) # conds), inp2))))"

text \<open>
  \<open>_find_contacts_by_search_conditions\<close>: the inner loop counts the conditions that
  match and appends the contact once the count equals the number of conditions.
\<close>

fun search_conditions_loop :: "nat \<Rightarrow> contact \<Rightarrow> SearchCondition list \<Rightarrow> nat
    \<Rightarrow> contact list \<Rightarrow> error + contact list" where
  "search_conditions_loop n c [] matched found = Inr found"
| "search_conditions_loop n c (s # ss) matched found =
     (case py_lower (getattr c (fst s)) of
        Inl e \<Rightarrow> Inl e
      | Inr t \<Rightarrow>
          (let matched' = (if sublist (lower (snd s)) t then matched + 1 else matched)
           in search_conditions_loop n c ss matched'
                (if matched' = n \<and> c \<notin> set found then found @ [c] else found)))"

fun search_contacts_loop :: "SearchCondition list \<Rightarrow> contact list \<Rightarrow> contact list
    \<Rightarrow> error + contact list" where
  "search_contacts_loop conds [] found = Inr found"
| "search_contacts_loop conds (c # cs) found =
     (case search_conditions_loop (length conds) c conds 0 found of
        Inl e \<Rightarrow> Inl e
      | Inr found' \<Rightarrow> search_contacts_loop conds cs found')"

definition find_contacts_by_search_conditions :: "phonebook \<Rightarrow> SearchCondition list
    \<Rightarrow> error + contact list" where
  "find_contacts_by_search_conditions pb search_conditions =
     search_contacts_loop search_conditions (contacts pb) []"

text \<open>\<open>_find_contacts_by_given_fields\<close>.\<close>

definition find_contacts_by_given_fields :: "phonebook \<Rightarrow> pystr list \<Rightarrow> unit outcome" where
  "find_contacts_by_given_fields pb inp =
     (case get_field_indexes inp of
        (Inl e, inp1) \<Rightarrow> (Inl e, pb, inp1)
      | (Inr search_field_indexes, inp1) \<Rightarrow>
          if search_field_indexes = [] then (Inr (), pb, inp1)
          else (case get_search_conditions search_field_indexes inp1 of
                  (Inl e, inp2) \<Rightarrow> (Inl e, pb, inp2)
                | (Inr search_conditions, inp2) \<Rightarrow>
                    (case find_contacts_by_search_conditions pb search_conditions of
                       Inl e \<Rightarrow> (Inl e, pb, inp2)
                     | Inr found_contacts \<Rightarrow>
                         print_search_results pb found_contacts inp2)))"

section \<open>Predicates of the statements\<close>

text \<open>
  The indexes of a list of contacts are dense when the contact at place \<open>i\<close> (counted
  from 1) has the index \<open>i\<close>, as an \<open>int\<close> or as the string \<open>int\<close> reads.
\<close>

definition dense :: "contact list \<Rightarrow> bool" where
  "dense cs = (map (\<lambda>c. py_int (index c)) cs = map (\<lambda>i. Inr (int i)) [1..<Suc (length cs)])"

text \<open>
  The list without its \<open>k\<close>-th contact (counted from 1), the others in their order and
  numbered from 1.
\<close>

definition removed :: "nat \<Rightarrow> contact list \<Rightarrow> contact list" where
  "removed k cs = map (\<lambda>(idx, c). c\<lparr>index := PInt (int idx)\<rparr>)
      (zip [1..<length cs] (take (k - 1) cs @ drop k cs))"

text \<open>
  The data rows of a file are the non-empty rows after the first. \<open>col row i\<close> is the
  value a row gives to the \<open>i\<close>-th column: its \<open>i\<close>-th string, or \<open>None\<close> when the row is too
  short; \<open>row_contact\<close> is the contact of the first seven columns.
\<close>

definition data_rows :: "pystr list list \<Rightarrow> pystr list list" where
  "data_rows rows = filter (\<lambda>row. row \<noteq> []) rows"

definition col :: "pystr list \<Rightarrow> nat \<Rightarrow> pyval" where
  "col row i = (if i < length row then PStr (row ! i) else PNone)"

definition row_contact :: "pystr list \<Rightarrow> contact" where
  "row_contact row = \<lparr>index = col row 0, last_name = col row 1, name = col row 2,
     middle_name = col row 3, organization = col row 4, work_phone = col row 5,
     private_phone = col row 6\<rparr>"

text \<open>
  Saving and reading back. A contact is storable when no attribute holds a carriage
  return (which reading in text mode turns into a line feed) and none is longer than
  the reader's field size limit. \<open>stored c\<close> is the contact as the file gives it back:
  every attribute as the text the writer wrote for it.
\<close>

definition storable :: "contact \<Rightarrow> bool" where
  "storable c = list_all (\<lambda>v. 13 \<notin> set (field_text v) \<and> length (field_text v) \<le> field_limit)
     (data_row c)"

definition stored :: "contact \<Rightarrow> contact" where
  "stored c = \<lparr>index = PStr (field_text (index c)), last_name = PStr (field_text (last_name c)),
     name = PStr (field_text (name c)), middle_name = PStr (field_text (middle_name c)),
     organization = PStr (field_text (organization c)),
     work_phone = PStr (field_text (work_phone c)),
     private_phone = PStr (field_text (private_phone c))\<rparr>"

definition save_then_read :: "contact list \<Rightarrow> error + contact list" where
  "save_then_read cs = (case save_all cs of Inl e \<Rightarrow> Inl e | Inr text \<Rightarrow> read_all text)"

fun is_str :: "pyval \<Rightarrow> bool" where
  "is_str (PStr s) = True"
| "is_str v = False"

text \<open>
  A row the storage writes has at least two values, each without carriage return and
  within the field size limit.
\<close>

definition row_ok :: "pyval list \<Rightarrow> bool" where
  "row_ok row = (2 \<le> length row
     \<and> (\<forall>v \<in> set row. 13 \<notin> set (field_text v) \<and> length (field_text v) \<le> field_limit))"

text \<open>
  The states of the reader between the fields of a row, and the state after the text of
  one field.
\<close>

definition after_field :: "reader \<Rightarrow> bool" where
  "after_field r = (r_state r = START_FIELD \<or> r_state r = IN_FIELD
     \<or> r_state r = QUOTE_IN_QUOTED_FIELD)"

definition field_read :: "reader \<Rightarrow> pystr \<Rightarrow> reader" where
  "field_read r s =
     (if s = [] then r
      else r\<lparr>r_field := s,
             r_state := (if list_ex special s then QUOTE_IN_QUOTED_FIELD else IN_FIELD)\<rparr>)"

text \<open>
  The invariant of the phone book between two commands: \<open>_last_index\<close> is the number of
  contacts, and the attributes other than the index are strings or \<open>None\<close>.
\<close>

definition texts :: "contact \<Rightarrow> bool" where
  "texts c = list_all (\<lambda>v. case v of PInt i \<Rightarrow> False | _ \<Rightarrow> True) (tl (data_row c))"

definition invariant :: "phonebook \<Rightarrow> bool" where
  "invariant pb = (last_index pb = int (length (contacts pb)) \<and> list_all texts (contacts pb))"

text \<open>
  A contact matches a query over all fields when the query occurs in the lowered text of
  one of its attributes; it matches a list of search conditions when the lowered text of
  every condition occurs in the lowered text of the condition's attribute.
\<close>

definition matches_any :: "pystr \<Rightarrow> contact \<Rightarrow> bool" where
  "matches_any q c = (\<exists>v \<in> set (data_row c). sublist q (lower (field_text v)))"

definition matches_all :: "SearchCondition list \<Rightarrow> contact \<Rightarrow> bool" where
  "matches_all conds c =
     (\<forall>s \<in> set conds. sublist (lower (snd s)) (lower (field_text (getattr c (fst s)))))"

section \<open>Example values\<close>

definition a3 :: contact where
  "a3 = (Contact (PStr [51]))\<lparr>last_name := PStr [67, 13, 68]\<rparr>"

definition a1 :: contact where "a1 = (Contact (PInt 1))\<lparr>last_name := PStr [65]\<rparr>"
definition a2 :: contact where "a2 = (Contact (PInt 2))\<lparr>last_name := PStr [66]\<rparr>"

definition w1 :: contact where "w1 = (Contact (PStr [49]))\<lparr>last_name := PStr [65]\<rparr>"
definition w2 :: contact where "w2 = (Contact (PInt 2))\<lparr>last_name := PStr [66]\<rparr>"
definition b1 :: contact where "b1 = (Contact (PInt 1))\<lparr>last_name := PStr [65]\<rparr>"
definition b2 :: contact where "b2 = (Contact (PInt 2))\<lparr>last_name := PStr [65]\<rparr>"
definition bpb :: phonebook where
  "bpb = \<lparr>contacts = [b1, b2], last_index = 2, formatter = ConsoleTableFormatter, storage = []\<rparr>"

definition wpb :: phonebook where
  "wpb = \<lparr>contacts = [w1, w2], last_index = 2, formatter = ConsoleVisitCardFormatter, storage = []\<rparr>"

section \<open>Facts about the storage\<close>

lemma mapM_Inr: "(\<And>x. x \<in> set xs \<Longrightarrow> f x = Inr (g x)) \<Longrightarrow> mapM f xs = Inr (map g xs)"
  by (induction xs) auto

lemma data_row_eq:
  "data_row c = [index c, last_name c, name c, middle_name c, organization c, work_phone c,
                 private_phone c]"
  by (simp add: data_row_def dict_items_def contact_fields_def field_items_def)

lemma to_csv_eq: "to_csv c = Inr (zip csv_fields (data_row c))"
  by (simp add: to_csv_def dict_items_def contact_fields_def field_items_def csv_field_map_def
      dict_get_def csv_fields_def data_row_def)

lemma dict_to_list_row: "dict_to_list csv_fields (zip csv_fields (data_row c)) = Inr (data_row c)"
  by (simp add: dict_to_list_def data_row_eq csv_fields_def field_items_def dict_get_def)

text \<open>\<open>save_all\<close> never raises: it writes the header and one row per contact.\<close>

lemma save_all_eq:
  "save_all cs = Inr (writeheader csv_fields @ concat (map (\<lambda>c. writerow (data_row c)) cs))"
proof -
  have 1: "mapM to_csv cs = Inr (map (\<lambda>c. zip csv_fields (data_row c)) cs)"
    by (rule mapM_Inr) (simp add: to_csv_eq)
  have 2: "mapM (dict_to_list csv_fields) (map (\<lambda>c. zip csv_fields (data_row c)) cs)
             = Inr (map data_row cs)"
    by (induction cs) (simp_all add: dict_to_list_row)
  show ?thesis by (simp add: save_all_def 1 2 comp_def)
qed

section \<open>Search leaves the state alone\<close>

lemma print_search_results_state: "fst (snd (print_search_results pb cs inp)) = pb"
  by (simp add: print_search_results_def split: prod.splits)

text \<open>
  Claim C10. Both search operations are read-only: whatever the contacts and the input,
  and whether the search returns or raises, the state after
  \<open>_find_contacts_by_all_fields\<close> and after \<open>_find_contacts_by_given_fields\<close> is the state
  before: the same contacts with the same values in the same order, and the same content
  of the storage's file.
\<close>

theorem search_read_only:
  "fst (snd (find_contacts_by_all_fields pb inp)) = pb
   \<and> fst (snd (find_contacts_by_given_fields pb inp)) = pb"
  by (simp add: find_contacts_by_all_fields_def find_contacts_by_given_fields_def
      print_search_results_state split: prod.splits sum.splits)

section \<open>Facts about the console operations\<close>

declare digits.simps [simp del]

lemma digits_not_Nil: "digits n \<noteq> []"
  by (subst digits.simps) simp

lemma digits_numeric: "list_all (\<lambda>c. 48 \<le> c \<and> c \<le> 57) (digits n)"
proof (induction n rule: digits.induct)
  case (1 n)
  show ?case
  proof (cases "n < 10")
    case True
    then show ?thesis by (subst digits.simps) simp
  next
    case False
    have "n mod 10 < 10" by simp
    then have "48 + n mod 10 \<le> 57" by linarith
    with False 1 show ?thesis by (subst digits.simps) simp
  qed
qed

lemma isnumeric_digits: "isnumeric (digits n)"
  using digits_numeric [of n]
  by (auto simp: isnumeric_def digits_not_Nil list_all_iff isnumeric_char_def)

lemma decimal_digit: "48 \<le> c \<Longrightarrow> c \<le> 57 \<Longrightarrow> decimal c = Some (c - 48)"
  by (simp add: decimal_def)

lemma decimal_digits: "\<not> list_ex (\<lambda>c. decimal c = None) (digits n)"
  using digits_numeric [of n] by (auto simp: list_all_iff list_ex_iff decimal_digit)

lemma int_of_str_snoc:
  "int_of_str (s @ [c]) = 10 * int_of_str s + int (case decimal c of None \<Rightarrow> 0 | Some d \<Rightarrow> d)"
  by (simp add: int_of_str_def)

lemma int_of_str_digits: "int_of_str (digits n) = int n"
proof (induction n rule: digits.induct)
  case (1 n)
  show ?case
  proof (cases "n < 10")
    case True
    then show ?thesis by (subst digits.simps) (simp add: int_of_str_def decimal_digit)
  next
    case False
    have "n mod 10 < 10" by simp
    then have d: "decimal (48 + n mod 10) = Some (n mod 10)"
      using decimal_digit [of "48 + n mod 10"] by simp
    have "int_of_str (digits n) = 10 * int (n div 10) + int (n mod 10)"
      using False 1 by (subst digits.simps) (simp add: int_of_str_snoc d)
    also have "\<dots> = int n" by (simp add: zdiv_int zmod_int)
    finally show ?thesis .
  qed
qed

lemma int_str_digits:
  "length (digits n) \<le> max_str_digits \<Longrightarrow> int_str (digits n) = Inr (int n)"
  by (simp add: int_str_def decimal_digits int_of_str_digits)

lemma get_answer_number:
  assumes "isnumeric l" "int_str l = Inr m" "1 \<le> m" "m \<le> n"
  shows "get_answer (map PInt [1..n]) (l # inp) = (Inr (PInt m), inp)"
proof -
  from assms(1) have "l \<noteq> []" by (simp add: isnumeric_def)
  with assms show ?thesis by simp
qed

text \<open>The decimal digits of a number are such a line, up to the limit of the conversion.\<close>

lemma str_int_numeric:
  "0 \<le> i \<Longrightarrow> length (str_int i) \<le> max_str_digits \<Longrightarrow>
   isnumeric (str_int i) \<and> int_str (str_int i) = Inr i"
  by (simp add: str_int_def isnumeric_digits int_str_digits)

lemma remove1_nth:
  "distinct xs \<Longrightarrow> i < length xs \<Longrightarrow> remove1 (xs ! i) xs = take i xs @ drop (Suc i) xs"
proof -
  assume d: "distinct xs" and i: "i < length xs"
  have xs: "xs = take i xs @ xs ! i # drop (Suc i) xs" using i by (rule id_take_nth_drop)
  have "xs ! i \<notin> set (take i xs)"
    using d i by (metis xs distinct_append not_distinct_conv_prefix)
  then have "remove1 (xs ! i) (take i xs @ xs ! i # drop (Suc i) xs) = take i xs @ drop (Suc i) xs"
    by (simp add: remove1_append)
  with xs show ?thesis by metis
qed


lemma print_one:
  "print_card c = Inr () \<Longrightarrow> print_contacts fmt [c] inp = (Inr (), inp)"
  by (cases fmt) (simp_all add: print_contacts_def DEFAULT_PAGE_SIZE_def)

lemma get_contact_by_index_ok:
  assumes "last_index pb = int (length (contacts pb))"
    and "isnumeric l" "int_str l = Inr (int k)"
    and "1 \<le> k" "k \<le> length (contacts pb)"
  shows "get_contact_by_index pb (l # inp) = (Inr (Some (k - 1)), inp)"
proof -
  have "get_answer (map PInt [1..last_index pb]) (l # inp) = (Inr (PInt (int k)), inp)"
    using assms by (intro get_answer_number) simp_all
  moreover have "list_index (contacts pb) (int k - 1) = Inr (k - 1)"
    using assms by (auto simp: list_index_def nat_diff_distrib')
  ultimately show ?thesis
    using assms by (simp add: get_contact_by_index_def)
qed

lemma dense_distinct: assumes "dense cs" shows "distinct cs"
proof -
  have "distinct (map (\<lambda>i. (Inr (int i) :: error + int)) [1..<Suc (length cs)])"
    by (simp add: distinct_map inj_on_def)
  then have "distinct (map (\<lambda>c. py_int (index c)) cs)"
    using assms by (simp add: dense_def)
  then show ?thesis by (simp add: distinct_map)
qed

lemma update_indexes_eq:
  "Suc (length rs) = n \<Longrightarrow>
   update_indexes (pb\<lparr>contacts := rs\<rparr>)
     = pb\<lparr>contacts := map (\<lambda>(idx, c). c\<lparr>index := PInt (int idx)\<rparr>) (zip [1..<n] rs),
          last_index := int n - 1\<rparr>"
  by (auto simp: update_indexes_def)

lemma delete_step:
  assumes d: "dense (contacts pb)"
    and k: "1 \<le> k" "k \<le> length (contacts pb)"
  shows "storage_save_all (update_indexes (pb\<lparr>contacts := remove1 (contacts pb ! (k - 1)) (contacts pb)\<rparr>))
     = (Inr (), pb\<lparr>contacts := removed k (contacts pb),
                 last_index := int (length (contacts pb)) - 1,
                 storage := writeheader csv_fields @ concat (map (\<lambda>c. writerow (data_row c)) (removed k (contacts pb)))\<rparr>)"
proof -
  have r: "remove1 (contacts pb ! (k - 1)) (contacts pb) = take (k - 1) (contacts pb) @ drop k (contacts pb)"
    using remove1_nth[OF dense_distinct[OF d], of "k - 1"] k by simp
  have l: "Suc (length (take (k - 1) (contacts pb) @ drop k (contacts pb))) = length (contacts pb)"
    using k by simp
  show ?thesis
    unfolding r update_indexes_eq[OF l] storage_save_all_def
    by (simp add: save_all_eq removed_def)
qed


lemma yes_not_no: "a \<in> set yes_answers \<Longrightarrow> a \<notin> set no_answers"
  by (auto simp: yes_answers_def no_answers_def)

section \<open>Deleting a contact\<close>

text \<open>
  The deletion after a yes answer. Let the list hold \<open>N\<close> contacts with the dense indexes
  \<open>1..N\<close> (and \<open>_last_index = N\<close>), let the user enter a number \<open>k\<close> with \<open>1 \<le> k \<le> N\<close>, let
  the chosen contact print, and let the answer be a yes answer. Then the contact is
  removed, the other \<open>N - 1\<close> contacts stay in their order and get the indexes \<open>1..N-1\<close>, and
  the file is rewritten from them: the header and one row per remaining contact. After
  the answers \<open>y\<close> and the Cyrillic \<open>d\<close> the operation returns with that state; after the two
  longer yes answers its loop goes on from that state, the removed contact in hand.
\<close>

lemma delete_contact_yes:
  assumes inv: "last_index pb = int (length (contacts pb))"
    and d: "dense (contacts pb)"
    and l: "isnumeric l" "int_str l = Inr (int k)"
    and k: "1 \<le> k" "k \<le> length (contacts pb)"
    and p: "print_card (contacts pb ! (k - 1)) = Inr ()"
    and y: "lower a \<in> set yes_answers"
  shows "delete_contact pb (l # a # inp) =
     (let pb' = pb\<lparr>contacts := removed k (contacts pb),
                   last_index := int (length (contacts pb)) - 1,
                   storage := writeheader csv_fields
                      @ concat (map (\<lambda>c. writerow (data_row c)) (removed k (contacts pb)))\<rparr>
      in if lower a \<in> set loop_answers then (Inr (), pb', inp)
         else delete_loop (Removed (contacts pb ! (k - 1))) pb' inp)"
proof -
  define c where "c = contacts pb ! (k - 1)"
  define pb' where "pb' = pb\<lparr>contacts := removed k (contacts pb),
                   last_index := int (length (contacts pb)) - 1,
                   storage := writeheader csv_fields
                      @ concat (map (\<lambda>c. writerow (data_row c)) (removed k (contacts pb)))\<rparr>"
  have m: "c \<in> set (contacts pb)" using k by (simp add: c_def)
  have st: "storage_save_all (update_indexes (pb\<lparr>contacts := remove1 c (contacts pb)\<rparr>))
              = (Inr (), pb')"
    unfolding c_def pb'_def by (rule delete_step[OF d k])
  have "contacts pb = take (k - 1) (contacts pb) @ c # drop (Suc (k - 1)) (contacts pb)"
    unfolding c_def using k by (intro id_take_nth_drop) simp
  with dense_distinct [OF d] have "c \<notin> set (take (k - 1) (contacts pb))"
    by (metis distinct_append not_distinct_conv_prefix)
  then have ar: "after_remove (contacts pb) (InList (k - 1)) = Removed c"
    by (simp add: c_def)
  have cc: "chosen_contact (contacts pb) (InList (k - 1)) = c"
    by (simp add: c_def)
  have dl: "delete_loop (InList (k - 1)) pb (a # inp) =
      (if lower a \<in> set loop_answers then (Inr (), pb', inp)
       else delete_loop (Removed c) pb' inp)"
    using yes_not_no[OF y] y m by (simp only: delete_loop.simps cc ar st if_True if_False
        prod.case sum.case not_True_eq_False)
  have pr: "print_contacts (formatter pb) [c] (a # inp) = (Inr (), a # inp)"
    unfolding c_def by (rule print_one[OF p])
  have "delete_contact pb (l # a # inp) = delete_loop (InList (k - 1)) pb (a # inp)"
    unfolding delete_contact_def get_contact_by_index_ok[OF inv l k]
    by (simp only: prod.case sum.case option.case pr [unfolded c_def] c_def)
  then show ?thesis
    unfolding dl Let_def pb'_def[symmetric] c_def[symmetric] .
qed

lemma delete_contact_yes_example:
  "delete_contact wpb [ [49], [89], [113]] =
      (Inr (), wpb\<lparr>contacts := [w2\<lparr>index := PInt 1\<rparr>], last_index := 1,
          storage := writeheader csv_fields @ writerow (data_row (w2\<lparr>index := PInt 1\<rparr>))\<rparr>,
       [ [113]])"
proof -
  have "last_index wpb = int (length (contacts wpb))" "dense (contacts wpb)"
    "isnumeric [49]" "int_str [49] = Inr (int 1)" "1 \<le> length (contacts wpb)"
    "print_card (contacts wpb ! (1 - 1)) = Inr ()" "lower [89] \<in> set yes_answers"
    "lower [89] \<in> set loop_answers"
    by (simp_all add: wpb_def w1_def w2_def Contact_def dense_def isnumeric_def
        isnumeric_char_def int_str_def decimal_def int_of_str_def max_str_digits_def
        print_card_def lower_def lower_char_def yes_answers_def loop_answers_def)
  with delete_contact_yes [of wpb "[49]" 1 "[89]" "[ [113]]"] show ?thesis
    by (simp add: wpb_def removed_def)
qed

text \<open>
  Claim C3. The claim says that confirming the deletion of a contact of a list with
  the dense indexes \<open>1..N\<close> leaves the other \<open>N - 1\<close> contacts, numbered \<open>1..N-1\<close>, and the
  file rewritten. After the answer \<open>yes\<close> the code asks again (the defect of claim C8),
  and a second yes answer removes a contact equal to the removed one when the
  renumbered list holds one. With two contacts of the same name and the indexes \<open>1\<close> and
  \<open>2\<close>, the lines \<open>1\<close>, \<open>yes\<close>, \<open>y\<close> leave no contact, and a file with the header alone,
  where the claim leaves the second contact with the index \<open>1\<close> (\<open>removed 1\<close> of the list).
\<close>

theorem delete_contact_twice:
  "last_index bpb = int (length (contacts bpb)) \<and> dense (contacts bpb)
   \<and> removed 1 (contacts bpb) = [b2\<lparr>index := PInt 1\<rparr>]
   \<and> delete_contact bpb [ [49], [121, 101, 115], [121]] =
      (Inr (), bpb\<lparr>contacts := [], last_index := 0, storage := writeheader csv_fields\<rparr>, [])"
  by (simp add: delete_contact_def get_contact_by_index_def list_index_def print_contacts_def
      DEFAULT_PAGE_SIZE_def bpb_def b1_def b2_def Contact_def dense_def removed_def isnumeric_def
      isnumeric_char_def int_str_def decimal_def int_of_str_def max_str_digits_def
      lower_def lower_char_def yes_answers_def no_answers_def loop_answers_def
      storage_save_all_def save_all_eq update_indexes_def upto.simps)

section \<open>Adding a contact\<close>

lemma input_fields_index:
  "input_fields fs c inp = (e, c', inp') \<Longrightarrow> index c' = index c"
proof (induction fs arbitrary: c inp)
  case Nil
  then show ?case by simp
next
  case (Cons f fs)
  show ?case
  proof (cases "title_en f = F_index")
    case True
    with Cons show ?thesis by simp
  next
    case False
    show ?thesis
    proof (cases inp)
      case Nil
      with False Cons.prems show ?thesis by simp
    next
      case (Cons d rest)
      have keep: "index (setattr c (title_en f) v) = index c" for v
        using False by (cases "title_en f") simp_all
      from Cons False Cons.prems Cons.IH keep show ?thesis
        by (auto split: if_splits)
    qed
  qed
qed


lemma input_fields_enough:
  "length (filter (\<lambda>f. title_en f \<noteq> F_index) fs) \<le> length inp \<Longrightarrow>
   input_fields fs c inp = (e, c', inp') \<Longrightarrow>
   e = None \<and> inp' = drop (length (filter (\<lambda>f. title_en f \<noteq> F_index) fs)) inp"
proof (induction fs arbitrary: c inp)
  case Nil
  then show ?case by simp
next
  case (Cons f fs)
  show ?case
  proof (cases "title_en f = F_index")
    case True
    with Cons show ?thesis by simp
  next
    case False
    with Cons.prems obtain d rest where inp: "inp = d # rest" by (cases inp) auto
    from Cons.prems False inp Cons.IH[of rest] show ?thesis
      by (auto split: if_splits)
  qed
qed

lemma asked_fields: "length (filter (\<lambda>f. title_en f \<noteq> F_index) (map snd field_items)) = 6"
  by (simp add: field_items_def)

text \<open>
  Claim C4. In a state with \<open>K\<close> contacts (and \<open>_last_index = K\<close>, as \<open>__init__\<close> and every
  operation leave it), \<open>_add_contact\<close> appends one contact to the list, which then holds
  \<open>K + 1\<close> contacts, the old ones unchanged; the new contact has the index \<open>K + 1\<close>. When
  the input has the six lines the operation asks for, it returns, with \<open>_last_index = K + 1\<close>.
\<close>

theorem add_contact_index:
  assumes inv: "last_index pb = int (length (contacts pb))"
  shows "case add_contact pb inp of (r, pb', inp') \<Rightarrow>
      length (contacts pb') = length (contacts pb) + 1
      \<and> butlast (contacts pb') = contacts pb
      \<and> index (last (contacts pb')) = PInt (int (length (contacts pb)) + 1)
      \<and> (6 \<le> length inp \<longrightarrow>
           r = Inr () \<and> last_index pb' = int (length (contacts pb')) \<and> inp' = drop 6 inp)"
proof -
  obtain e c i where f: "input_fields (map snd field_items) (Contact (PInt (last_index pb + 1))) inp
      = (e, c, i)" by (cases "input_fields (map snd field_items) (Contact (PInt (last_index pb + 1))) inp") auto
  have ix: "index c = PInt (int (length (contacts pb)) + 1)"
    using input_fields_index[OF f] inv by (simp add: Contact_def)
  have en: "e = None \<and> i = drop 6 inp" if "6 \<le> length inp"
  proof -
    from that have "length (filter (\<lambda>f. title_en f \<noteq> F_index) (map snd field_items))
        \<le> length inp" by (simp only: asked_fields)
    from input_fields_enough[OF this f] show ?thesis by (simp only: asked_fields)
  qed
  have res: "add_contact pb inp =
      (case e of
         Some x \<Rightarrow> (Inl x, pb\<lparr>contacts := contacts pb @ [c]\<rparr>, i)
       | None \<Rightarrow> (Inr (), pb\<lparr>contacts := contacts pb @ [c],
                              last_index := last_index pb + 1,
                              storage := add_one (storage pb) c\<rparr>, i))"
    by (simp add: add_contact_def input_contact_data_def f Let_def storage_add_one_def
        split: option.splits)
  show ?thesis
    unfolding res using ix en inv by (cases e) auto
qed

theorem add_contact_index_witness:
  "last_index wpb = int (length (contacts wpb))
   \<and> (case add_contact wpb [ [67], [], [], [], [], [], [113]] of (r, pb', inp') \<Rightarrow>
      length (contacts pb') = length (contacts wpb) + 1
      \<and> butlast (contacts pb') = contacts wpb
      \<and> index (last (contacts pb')) = PInt 3
      \<and> r = Inr () \<and> last_index pb' = 3 \<and> inp' = [ [113]])"
  using add_contact_index [of wpb "[ [67], [], [], [], [], [], [113]]"]
  by (simp add: wpb_def split: prod.splits)


section \<open>The confirmation of a deletion\<close>

text \<open>
  Claim C8. The claim says that any of the four yes answers removes the contact once and
  returns to the menu without a further question. The code asks again after the two long
  yes answers: with two contacts, the index \<open>1\<close> and the answer \<open>yes\<close>, the contact is
  removed and the file rewritten, and then the loop reads the next line; on \<open>n\<close> it returns,
  on \<open>y\<close> it tries to remove the contact a second time and raises \<open>ValueError\<close>.
\<close>

theorem delete_yes_asks_again:
  "delete_contact wpb [ [49], [121, 101, 115], [110]] =
     (Inr (), wpb\<lparr>contacts := [w2\<lparr>index := PInt 1\<rparr>], last_index := 1,
          storage := writeheader csv_fields @ writerow (data_row (w2\<lparr>index := PInt 1\<rparr>))\<rparr>, [])
   \<and> delete_contact wpb [ [49], [121, 101, 115], [121]] =
     (Inl ValueError, wpb\<lparr>contacts := [w2\<lparr>index := PInt 1\<rparr>], last_index := 1,
          storage := writeheader csv_fields @ writerow (data_row (w2\<lparr>index := PInt 1\<rparr>))\<rparr>, [])"
  by (simp add: delete_contact_def get_contact_by_index_def list_index_def print_contacts_def
      print_card_def wpb_def w1_def w2_def Contact_def isnumeric_def isnumeric_char_def
      int_str_def decimal_def int_of_str_def max_str_digits_def
      lower_def lower_char_def yes_answers_def no_answers_def loop_answers_def
      storage_save_all_def save_all_eq update_indexes_def upto.simps)

section \<open>The field numbers of a search\<close>

text \<open>
  Claim C7. The claim says that exactly the numbers \<open>1..7\<close> are accepted and that the
  field lookup never fails. The code tests against \<open>range(7)\<close>, the numbers \<open>0..6\<close>: the
  line \<open>0\<close> is accepted and the lookup \<open>field_map[0]\<close> raises \<open>KeyError\<close>, and the line \<open>7\<close> is
  refused, the prompt reading the next line.
\<close>

theorem field_indexes_off_by_one:
  "get_field_indexes [ [48], [113]] = (Inr [0], [ [113]])
   \<and> get_search_conditions [0] [ [113]] = (Inl KeyError, [ [113]])
   \<and> fst (find_contacts_by_given_fields wpb [ [48], [113]]) = Inl KeyError
   \<and> get_field_indexes [ [55], [49]] = (Inr [1], [])"
  by (simp add: split_def split_acc.simps isspace_def isnumeric_def isnumeric_char_def
      int_str_def decimal_def int_of_str_def max_str_digits_def field_range_def
      field_items_def field_map_def find_contacts_by_given_fields_def upto.simps)

section \<open>Search on an index that is a number\<close>

text \<open>
  Claim C6. The claim is about every list of contacts. A contact added or renumbered in
  the session has an \<open>int\<close> index, which has no method \<open>lower\<close>: on such a contact the
  search over all fields raises \<open>AttributeError\<close> instead of returning the matches.
\<close>

theorem all_fields_int_index:
  "all_fields_contacts [98] [w2] [] = Inl AttributeError
   \<and> find_contacts_by_all_fields (wpb\<lparr>contacts := [w2]\<rparr>) [ [66]]
       = (Inl AttributeError, wpb\<lparr>contacts := [w2]\<rparr>, [])"
  by (simp add: find_contacts_by_all_fields_def input_def w2_def Contact_def data_row_eq
      lower_def lower_char_def)

text \<open>
  Claim C5. The same defect in the search over selected fields: when the field \<open>index\<close>
  is selected and a contact has an \<open>int\<close> index, the search raises \<open>AttributeError\<close>.
\<close>

theorem search_conditions_int_index:
  "find_contacts_by_search_conditions (wpb\<lparr>contacts := [w2]\<rparr>) [(F_index, [50])]
     = Inl AttributeError"
  by (simp add: find_contacts_by_search_conditions_def w2_def Contact_def)


section \<open>Reading the file\<close>

lemmas reader_defs = read_all_def csv_reader_def parse_reset_def parse_process_char_def
  start_field_def is_newline_def end_of_line_def parse_save_field_def parse_add_char_def
  set_state_def field_limit_def yield_def at_eof_def dict_row_def row_values_def dict_get_def

lemmas writer_defs = writeheader_def writerow_def csv_fields_def field_items_def
  join_append_def special_def add_one_def data_row_eq str_int_def

lemma dict_get_distinct:
  "distinct (map fst d) \<Longrightarrow> (dict_get d k = Some v) = ((k, v) \<in> set d)"
  by (simp add: dict_get_def rev_map [symmetric])

lemma dict_row_keys: "map fst (dict_row ks row) = ks"
proof -
  have "map fst (zip ks (map PStr row)) = take (length row) ks"
    by (simp add: map_fst_zip_take min_def)
  then show ?thesis by (simp add: dict_row_def comp_def)
qed

lemma dict_row_nth:
  assumes "i < length ks"
  shows "dict_row ks row ! i = (ks ! i, col row i)"
proof (cases "i < length row")
  case True
  with assms show ?thesis by (simp add: dict_row_def nth_append col_def)
next
  case False
  then have "length row + (i - length row) = i" by simp
  with False assms show ?thesis by (simp add: dict_row_def nth_append col_def min_def)
qed

lemma dict_row_length: "length (dict_row ks row) = length ks"
  using arg_cong [OF dict_row_keys, of length ks row] by simp

lemma dict_row_get:
  assumes "distinct ks" "i < length ks"
  shows "dict_get (dict_row ks row) (ks ! i) = Some (col row i)"
proof -
  have "(ks ! i, col row i) \<in> set (dict_row ks row)"
    using assms(2) dict_row_nth [OF assms(2), of row] dict_row_length [of ks row]
    by (metis nth_mem)
  then show ?thesis
    using assms(1) by (simp add: dict_get_distinct dict_row_keys)
qed

lemma dict_row_get_None: "(dict_get (dict_row ks row) k = None) = (k \<notin> set ks)"
proof -
  have "(map_of (rev (dict_row ks row)) k = None) = (k \<notin> fst ` set (rev (dict_row ks row)))"
    by (rule map_of_eq_None_iff)
  also have "fst ` set (rev (dict_row ks row)) = set (map fst (dict_row ks row))" by simp
  finally show ?thesis by (simp only: dict_get_def dict_row_keys)
qed

lemma csv_fields_distinct: "distinct csv_fields"
  by (simp add: csv_fields_def field_items_def)

lemma csv_fields_list:
  "csv_fields = [csv_fields ! 0, csv_fields ! 1, csv_fields ! 2, csv_fields ! 3,
                 csv_fields ! 4, csv_fields ! 5, csv_fields ! 6]"
  by (simp add: csv_fields_def field_items_def)

lemma csv_fields_length: "length csv_fields = 7"
  by (simp add: csv_fields_def field_items_def)

lemma row_values_header:
  "row_values (dict_row csv_fields row) = Inr (map (col row) [0, 1, 2, 3, 4, 5, 6])"
proof -
  have g: "dict_get (dict_row csv_fields row) (csv_fields ! i) = Some (col row i)" if "i < 7" for i
    using that by (intro dict_row_get csv_fields_distinct) (simp add: csv_fields_def field_items_def)
  have "row_values (dict_row csv_fields row) =
      mapM (\<lambda>f. case dict_get (dict_row csv_fields row) f of None \<Rightarrow> Inl KeyError | Some v \<Rightarrow> Inr v)
        [csv_fields ! 0, csv_fields ! 1, csv_fields ! 2, csv_fields ! 3,
                 csv_fields ! 4, csv_fields ! 5, csv_fields ! 6]"
    unfolding row_values_def by (subst (2) csv_fields_list) (rule refl)
  also have "\<dots> = Inr (map (col row) [0, 1, 2, 3, 4, 5, 6])"
    by (simp add: g)
  finally show ?thesis .
qed

lemma row_values_KeyError:
  "\<not> set csv_fields \<subseteq> set ks \<Longrightarrow> row_values (dict_row ks row) = Inl KeyError"
proof -
  have gen: "\<not> set fs \<subseteq> set ks \<Longrightarrow>
     mapM (\<lambda>f. case dict_get (dict_row ks row) f of None \<Rightarrow> Inl KeyError | Some v \<Rightarrow> Inr v) fs
       = Inl KeyError" for fs
  proof (induction fs)
    case Nil
    then show ?case by simp
  next
    case (Cons f fs)
    show ?case
    proof (cases "f \<in> set ks")
      case True
      with Cons show ?thesis
        by (auto simp: dict_row_get_None split: option.splits sum.splits)
    next
      case False
      then have "dict_get (dict_row ks row) f = None" by (simp add: dict_row_get_None)
      then show ?thesis by simp
    qed
  qed
  assume "\<not> set csv_fields \<subseteq> set ks"
  then show ?thesis unfolding row_values_def by (rule gen)
qed

lemma row_values_ok:
  "set csv_fields \<subseteq> set ks \<Longrightarrow> \<exists>vs. row_values (dict_row ks row) = Inr vs \<and> length vs = 7"
proof -
  have gen: "set fs \<subseteq> set ks \<Longrightarrow>
     \<exists>vs. mapM (\<lambda>f. case dict_get (dict_row ks row) f of None \<Rightarrow> Inl KeyError | Some v \<Rightarrow> Inr v) fs
       = Inr vs \<and> length vs = length fs" for fs
  proof (induction fs)
    case Nil
    then show ?case by simp
  next
    case (Cons f fs)
    then have "dict_get (dict_row ks row) f \<noteq> None" by (simp add: dict_row_get_None)
    with Cons show ?case by (auto split: option.splits)
  qed
  assume "set csv_fields \<subseteq> set ks"
  from gen [OF this] show ?thesis
    unfolding row_values_def csv_fields_length .
qed


lemma mapM_append_Inl: "mapM f xs = Inl e \<Longrightarrow> mapM f (xs @ ys) = Inl e"
  by (induction xs arbitrary: e) (auto split: sum.splits)

lemma contact_of_values_row:
  "contact_of_values (map (col row) [0, 1, 2, 3, 4, 5, 6]) = Inr (row_contact row)"
  by (simp add: row_contact_def)

lemma contact_of_values_7:
  "length vs = 7 \<Longrightarrow> \<exists>c. contact_of_values vs = Inr c"
proof -
  assume "length vs = 7"
  then obtain a b c d e f g where "vs = [a, b, c, d, e, f, g]"
    by (auto simp: length_Suc_conv eval_nat_numeral)
  then show ?thesis by simp
qed

lemma mapM_length: "mapM f xs = Inr ys \<Longrightarrow> length ys = length xs"
  by (induction xs arbitrary: ys) (auto split: sum.splits)

lemma mapM_all: "mapM f xs = Inr ys \<Longrightarrow> y \<in> set ys \<Longrightarrow> \<exists>x \<in> set xs. f x = Inr y"
  by (induction xs arbitrary: ys) (auto split: sum.splits)

lemma mapM_ex: "\<forall>x \<in> set xs. \<exists>y. f x = Inr y \<Longrightarrow> \<exists>ys. mapM f xs = Inr ys"
  by (induction xs) (auto split: sum.splits)

lemma read_all_header:
  assumes r: "csv_reader file = (csv_fields # rows, None)"
  shows "read_all file = Inr (map row_contact (data_rows rows))"
proof -
  have d: "mapM (\<lambda>row. row_values (dict_row csv_fields row)) (data_rows rows)
             = Inr (map (\<lambda>row. map (col row) [0, 1, 2, 3, 4, 5, 6]) (data_rows rows))"
    by (rule mapM_Inr) (simp add: row_values_header)
  have c: "mapM contact_of_values (map (\<lambda>row. map (col row) [0, 1, 2, 3, 4, 5, 6]) (data_rows rows))
             = Inr (map row_contact (data_rows rows))"
    by (induction rows) (simp_all add: data_rows_def row_contact_def)
  show ?thesis
    using d c by (simp add: read_all_def r data_rows_def [symmetric])
qed

text \<open>
  Claim C9 says that \<open>read_all\<close> fails with a \<open>FormatError\<close> whenever the header or a row
  is malformed. The code has no such error and does not check the rows: a row with two
  values under the right header is read as a contact whose other attributes are \<open>None\<close>,
  and a file with a wrong header and no data row is read as the empty list.
\<close>

theorem read_all_short_row:
  "read_all (writeheader csv_fields @ [49, 44, 65, 10])
     = Inr [\<lparr>index = PStr [49], last_name = PStr [65], name = PNone, middle_name = PNone,
             organization = PNone, work_phone = PNone, private_phone = PNone\<rparr>]
   \<and> read_all [65, 44, 66, 10] = Inr []"
  by (simp add: writer_defs reader_defs)

text \<open>
  Claim C9, as the code has it. Let the reader yield the rows of the file without an
  error, the first being the field names. If a column title is missing from the field
  names and there is a data row, \<open>read_all\<close> raises \<open>KeyError\<close>, and so does the start of
  the program. Otherwise it returns one contact per data row, whatever the number of
  values of the rows. Under the seven titles in their order, the contact of a row holds
  its first seven values, \<open>None\<close> where the row is short.
\<close>

theorem read_all_structure:
  assumes r: "csv_reader file = (fieldnames # rows, None)"
  shows "(data_rows rows \<noteq> [] \<and> \<not> set csv_fields \<subseteq> set fieldnames
            \<longrightarrow> read_all file = Inl KeyError \<and> main (Some file) = Inl KeyError)
       \<and> (data_rows rows = [] \<or> set csv_fields \<subseteq> set fieldnames
            \<longrightarrow> (\<exists>cs. read_all file = Inr cs \<and> length cs = length (data_rows rows)))
       \<and> (fieldnames = csv_fields
            \<longrightarrow> read_all file = Inr (map row_contact (data_rows rows)))"
proof (intro conjI)
  show "data_rows rows \<noteq> [] \<and> \<not> set csv_fields \<subseteq> set fieldnames
            \<longrightarrow> read_all file = Inl KeyError \<and> main (Some file) = Inl KeyError"
  proof
  assume a: "data_rows rows \<noteq> [] \<and> \<not> set csv_fields \<subseteq> set fieldnames"
  then obtain row rest where dr: "data_rows rows = row # rest" by (cases "data_rows rows") auto
  have "mapM (\<lambda>row. row_values (dict_row fieldnames row)) (row # rest) = Inl KeyError"
    using a by (simp add: row_values_KeyError)
  then show "read_all file = Inl KeyError \<and> main (Some file) = Inl KeyError"
    using dr by (simp add: read_all_def r data_rows_def main_def init_storage_def Phonebook_def)
  qed
next
  show "data_rows rows = [] \<or> set csv_fields \<subseteq> set fieldnames
            \<longrightarrow> (\<exists>cs. read_all file = Inr cs \<and> length cs = length (data_rows rows))"
  proof
  assume a: "data_rows rows = [] \<or> set csv_fields \<subseteq> set fieldnames"
  show "\<exists>cs. read_all file = Inr cs \<and> length cs = length (data_rows rows)"
  proof (cases "data_rows rows = []")
    case True
    then show ?thesis by (simp add: read_all_def r data_rows_def)
  next
    case False
    with a have sub: "set csv_fields \<subseteq> set fieldnames" by simp
    obtain data where d: "mapM (\<lambda>row. row_values (dict_row fieldnames row)) (data_rows rows) = Inr data"
      using mapM_ex [of "data_rows rows" "\<lambda>row. row_values (dict_row fieldnames row)"]
        row_values_ok [OF sub] by blast
    have "\<exists>c. contact_of_values vs = Inr c" if "vs \<in> set data" for vs
    proof -
      from mapM_all [OF d that] obtain row where "row_values (dict_row fieldnames row) = Inr vs"
        by blast
      with row_values_ok [OF sub, of row] have "length vs = 7" by simp
      then show ?thesis by (rule contact_of_values_7)
    qed
    then obtain cs where c: "mapM contact_of_values data = Inr cs"
      using mapM_ex [of data contact_of_values] by blast
    have "length cs = length (data_rows rows)"
      using mapM_length [OF c] mapM_length [OF d] by simp
    with c d show ?thesis
      by (simp add: read_all_def r data_rows_def [symmetric])
  qed
  qed
next
  show "fieldnames = csv_fields
            \<longrightarrow> read_all file = Inr (map row_contact (data_rows rows))"
  proof
  assume h: "fieldnames = csv_fields"
  show "read_all file = Inr (map row_contact (data_rows rows))"
    using r unfolding h by (rule read_all_header)
  qed
qed

theorem read_all_structure_witness:
  "csv_reader (writeheader csv_fields @ [49, 44, 65, 10]) = (csv_fields # [ [ [49], [65]]], None)
   \<and> read_all (writeheader csv_fields @ [49, 44, 65, 10])
       = Inr [\<lparr>index = PStr [49], last_name = PStr [65], name = PNone, middle_name = PNone,
               organization = PNone, work_phone = PNone, private_phone = PNone\<rparr>]
   \<and> csv_reader [65, 44, 66, 10, 49, 10] = ([ [65], [66]] # [ [ [49]]], None)
   \<and> data_rows [ [ [49]]] \<noteq> [] \<and> \<not> set csv_fields \<subseteq> set [ [65], [66]]
   \<and> read_all [65, 44, 66, 10, 49, 10] = Inl KeyError
   \<and> main (Some [65, 44, 66, 10, 49, 10]) = Inl KeyError"
proof -
  have 1: "csv_reader (writeheader csv_fields @ [49, 44, 65, 10]) = (csv_fields # [ [ [49], [65]]], None)"
    by (simp add: writer_defs reader_defs)
  have 2: "csv_reader [65, 44, 66, 10, 49, 10] = ([ [65], [66]] # [ [ [49]]], None)"
    by (simp add: reader_defs)
  have 3: "data_rows [ [ [49]]] \<noteq> [] \<and> \<not> set csv_fields \<subseteq> set [ [65], [66]]"
    by (simp add: data_rows_def csv_fields_def field_items_def)
  show ?thesis
    using read_all_structure [OF 1] read_all_structure [OF 2] 1 2 3
    by (simp add: data_rows_def row_contact_def col_def)
qed

section \<open>Appending to the file\<close>

text \<open>
  Claim C2. \<open>add_one\<close> writes the values joined by commas, without a line terminator and
  without quoting. After the first append to a new file the file reads as the one
  contact. After the second append the two rows are one line: the file reads as one
  contact, the first with the index of the second as its private phone, and not as the
  previous contacts followed by the added one.
\<close>

theorem add_one_twice:
  "read_all (add_one (writeheader csv_fields) a1)
     = Inr [\<lparr>index = PStr [49], last_name = PStr [65], name = PStr [], middle_name = PStr [],
             organization = PStr [], work_phone = PStr [], private_phone = PStr []\<rparr>]
   \<and> read_all (add_one (add_one (writeheader csv_fields) a1) a2)
     = Inr [\<lparr>index = PStr [49], last_name = PStr [65], name = PStr [], middle_name = PStr [],
             organization = PStr [], work_phone = PStr [], private_phone = PStr [50]\<rparr>]"
  by (simp add: writer_defs reader_defs a1_def a2_def Contact_def digits.simps[of "Suc 0"] digits.simps[of 2])


section \<open>The reader on what the writer wrote\<close>

text \<open>The steps of the reader inside and at the end of a field.\<close>

lemma ppc_in_field:
  "r_state r = IN_FIELD \<Longrightarrow> \<not> special c \<Longrightarrow> length (r_field r) < field_limit \<Longrightarrow>
   parse_process_char r (Ch c) = Inr (r\<lparr>r_field := r_field r @ [c]\<rparr>)"
  by (simp add: parse_process_char_def is_newline_def special_def parse_add_char_def)

lemma ppc_start_field_char:
  "r_state r = START_FIELD \<Longrightarrow> \<not> special c \<Longrightarrow> length (r_field r) < field_limit \<Longrightarrow>
   parse_process_char r (Ch c) = Inr (r\<lparr>r_field := r_field r @ [c], r_state := IN_FIELD\<rparr>)"
  by (simp add: parse_process_char_def start_field_def is_newline_def special_def
      parse_add_char_def set_state_def)

lemma ppc_start_field_quote:
  "r_state r = START_FIELD \<Longrightarrow>
   parse_process_char r (Ch 34) = Inr (r\<lparr>r_state := IN_QUOTED_FIELD\<rparr>)"
  by (simp add: parse_process_char_def start_field_def is_newline_def)

lemma ppc_quoted_char:
  "r_state r = IN_QUOTED_FIELD \<Longrightarrow> c \<noteq> 34 \<Longrightarrow> length (r_field r) < field_limit \<Longrightarrow>
   parse_process_char r (Ch c) = Inr (r\<lparr>r_field := r_field r @ [c]\<rparr>)"
  by (simp add: parse_process_char_def parse_add_char_def)

lemma ppc_quoted_quote:
  "r_state r = IN_QUOTED_FIELD \<Longrightarrow>
   parse_process_char r (Ch 34) = Inr (r\<lparr>r_state := QUOTE_IN_QUOTED_FIELD\<rparr>)"
  by (simp add: parse_process_char_def)

lemma ppc_quoted_eol:
  "r_state r = IN_QUOTED_FIELD \<Longrightarrow> parse_process_char r EOL = Inr r"
  by (simp add: parse_process_char_def)

lemma ppc_quote_quote:
  "r_state r = QUOTE_IN_QUOTED_FIELD \<Longrightarrow> length (r_field r) < field_limit \<Longrightarrow>
   parse_process_char r (Ch 34) = Inr (r\<lparr>r_field := r_field r @ [34], r_state := IN_QUOTED_FIELD\<rparr>)"
  by (simp add: parse_process_char_def parse_add_char_def set_state_def)

lemma ppc_delimiter:
  "after_field r \<Longrightarrow>
   parse_process_char r (Ch 44) = Inr (r\<lparr>r_fields := r_fields r @ [r_field r], r_field := [],
      r_state := START_FIELD\<rparr>)"
  by (auto simp: after_field_def parse_process_char_def start_field_def is_newline_def
      parse_save_field_def)

lemma ppc_newline:
  "after_field r \<Longrightarrow>
   parse_process_char r (Ch 10) = Inr (r\<lparr>r_fields := r_fields r @ [r_field r], r_field := [],
      r_state := EAT_CRNL\<rparr>)"
  by (auto simp: after_field_def parse_process_char_def start_field_def is_newline_def
      parse_save_field_def end_of_line_def)

lemma ppc_eat_eol:
  "r_state r = EAT_CRNL \<Longrightarrow> parse_process_char r EOL = Inr (r\<lparr>r_state := START_RECORD\<rparr>)"
  by (simp add: parse_process_char_def)

lemma ppc_start_record:
  "r_state r = START_RECORD \<Longrightarrow> c \<noteq> 10 \<Longrightarrow> c \<noteq> 13 \<Longrightarrow>
   parse_process_char r (Ch c) = parse_process_char (r\<lparr>r_state := START_FIELD\<rparr>) (Ch c)"
  by (simp add: parse_process_char_def)

lemma read_unquoted:
  "r_state r = IN_FIELD \<Longrightarrow> \<not> list_ex special s \<Longrightarrow>
   length (r_field r) + length s \<le> field_limit \<Longrightarrow>
   reader_rows r True (s @ rest) = reader_rows (r\<lparr>r_field := r_field r @ s\<rparr>) True rest"
proof (induction s arbitrary: r)
  case Nil
  then show ?case by simp
next
  case (Cons c s)
  then have c: "\<not> special c" "c \<noteq> 10" by (auto simp: special_def)
  from Cons.prems have l: "length (r_field r) < field_limit" by simp
  have "reader_rows r True ((c # s) @ rest)
      = reader_rows (r\<lparr>r_field := r_field r @ [c]\<rparr>) True (s @ rest)"
    using c by (simp add: ppc_in_field [OF Cons.prems(1) c(1) l])
  also have "\<dots> = reader_rows (r\<lparr>r_field := r_field r @ [c], r_field := (r_field r @ [c]) @ s\<rparr>) True rest"
    using Cons.prems by (subst Cons.IH) simp_all
  finally show ?case by simp
qed

lemma read_quoted:
  "r_state r = IN_QUOTED_FIELD \<Longrightarrow> length (r_field r) + length s \<le> field_limit \<Longrightarrow>
   reader_rows r p (join_append_data s @ 34 # rest)
     = reader_rows (r\<lparr>r_field := r_field r @ s, r_state := QUOTE_IN_QUOTED_FIELD\<rparr>) True rest"
proof (induction s arbitrary: r p)
  case Nil
  then show ?case by (simp add: ppc_quoted_quote)
next
  case (Cons c s)
  from Cons.prems have l: "length (r_field r) < field_limit" by simp
  show ?case
  proof (cases "c = 34")
    case True
    let ?q = "r\<lparr>r_state := QUOTE_IN_QUOTED_FIELD\<rparr>"
    let ?r = "r\<lparr>r_field := r_field r @ [34]\<rparr>"
    have q: "parse_process_char ?q (Ch 34) = Inr ?r"
      using ppc_quote_quote [of ?q] l Cons.prems(1) by simp
    have "reader_rows r p (join_append_data (c # s) @ 34 # rest)
        = reader_rows ?r True (join_append_data s @ 34 # rest)"
      using True by (simp add: ppc_quoted_quote [OF Cons.prems(1)] q)
    also have "\<dots> = reader_rows (?r\<lparr>r_field := r_field ?r @ s, r_state := QUOTE_IN_QUOTED_FIELD\<rparr>) True rest"
      using Cons.prems by (subst Cons.IH) simp_all
    finally show ?thesis using True by simp
  next
    case False
    let ?r = "r\<lparr>r_field := r_field r @ [c]\<rparr>"
    have a: "parse_process_char r (Ch c) = Inr ?r"
      by (rule ppc_quoted_char [OF Cons.prems(1) False l])
    have e: "parse_process_char ?r EOL = Inr ?r"
      using Cons.prems(1) by (simp add: ppc_quoted_eol)
    have "reader_rows r p (join_append_data (c # s) @ 34 # rest)
        = reader_rows ?r (c \<noteq> 10) (join_append_data s @ 34 # rest)"
    proof (cases "c = 10")
      case True
      have "parse_process_char (r\<lparr>r_field := r_field r @ [10]\<rparr>) EOL
          = Inr (r\<lparr>r_field := r_field r @ [10]\<rparr>)"
        using e True by simp
      then show ?thesis using True a Cons.prems(1) by simp
    next
      case c: False
      with False a show ?thesis by simp
    qed
    also have "\<dots> = reader_rows (?r\<lparr>r_field := r_field ?r @ s, r_state := QUOTE_IN_QUOTED_FIELD\<rparr>) True rest"
      using Cons.prems by (subst Cons.IH) simp_all
    finally show ?thesis by simp
  qed
qed

text \<open>
  Reading the text of one field from the start of the field, then the delimiter or the
  end of the line, and so a whole row.
\<close>

lemma field_read_after:
  "r_state r = START_FIELD \<Longrightarrow> r_field r = [] \<Longrightarrow>
   after_field (field_read r s) \<and> r_field (field_read r s) = s
   \<and> r_fields (field_read r s) = r_fields r"
  by (simp add: field_read_def after_field_def)

lemma read_field:
  assumes st: "r_state r = START_FIELD" and e: "r_field r = []"
    and l: "length s \<le> field_limit"
  shows "reader_rows r p (join_append s @ rest) = reader_rows (field_read r s) (s \<noteq> [] \<or> p) rest"
proof (cases "list_ex special s")
  case True
  then have n: "s \<noteq> []" by auto
  let ?q = "r\<lparr>r_state := IN_QUOTED_FIELD\<rparr>"
  have "reader_rows r p (join_append s @ rest)
      = reader_rows ?q True (join_append_data s @ 34 # rest)"
    using True by (simp add: join_append_def ppc_start_field_quote [OF st])
  also have "\<dots> = reader_rows (?q\<lparr>r_field := r_field ?q @ s, r_state := QUOTE_IN_QUOTED_FIELD\<rparr>) True rest"
    using e l by (subst read_quoted) simp_all
  finally show ?thesis using True n e by (cases r) (simp add: field_read_def)
next
  case False
  show ?thesis
  proof (cases s)
    case Nil
    then show ?thesis by (simp add: join_append_def field_read_def)
  next
    case (Cons c t)
    with False have c: "\<not> special c" "c \<noteq> 10" and t: "\<not> list_ex special t"
      by (auto simp: special_def)
    have fl: "0 < field_limit" by (simp add: field_limit_def)
    let ?q = "r\<lparr>r_field := r_field r @ [c], r_state := IN_FIELD\<rparr>"
    have "reader_rows r p (join_append s @ rest) = reader_rows ?q True (t @ rest)"
      using False Cons c e fl by (simp add: join_append_def ppc_start_field_char [OF st c(1)])
    also have "\<dots> = reader_rows (?q\<lparr>r_field := r_field ?q @ t\<rparr>) True rest"
      using t l Cons e by (subst read_unquoted) simp_all
    finally show ?thesis using False Cons e by (cases r) (simp add: field_read_def)
  qed
qed

lemma read_field_delimiter:
  assumes st: "r_state r = START_FIELD" and e: "r_field r = []"
    and l: "length s \<le> field_limit"
  shows "reader_rows r p (join_append s @ 44 # rest)
     = reader_rows (r\<lparr>r_fields := r_fields r @ [s]\<rparr>) True rest"
proof -
  note a = field_read_after [OF st e, of s]
  have eq: "(field_read r s)\<lparr>r_fields := r_fields r @ [s], r_field := [], r_state := START_FIELD\<rparr>
      = r\<lparr>r_fields := r_fields r @ [s]\<rparr>"
    using st e by (cases r) (simp add: field_read_def)
  have "reader_rows r p (join_append s @ 44 # rest)
      = reader_rows (field_read r s) (s \<noteq> [] \<or> p) (44 # rest)"
    by (rule read_field [OF st e l])
  also have "\<dots> = reader_rows (r\<lparr>r_fields := r_fields r @ [s]\<rparr>) True rest"
    using a by (simp add: ppc_delimiter eq)
  finally show ?thesis .
qed

lemma read_field_newline:
  assumes st: "r_state r = START_FIELD" and e: "r_field r = []"
    and l: "length s \<le> field_limit"
  shows "reader_rows r p (join_append s @ 10 # rest)
     = yield (r_fields r @ [s]) (reader_rows parse_reset False rest)"
proof -
  note a = field_read_after [OF st e, of s]
  have "reader_rows r p (join_append s @ 10 # rest)
      = reader_rows (field_read r s) (s \<noteq> [] \<or> p) (10 # rest)"
    by (rule read_field [OF st e l])
  also have "\<dots> = yield (r_fields r @ [s]) (reader_rows parse_reset False rest)"
    using a by (simp add: ppc_newline ppc_eat_eol)
  finally show ?thesis .
qed

lemma read_row:
  "fs \<noteq> [] \<Longrightarrow> r_state r = START_FIELD \<Longrightarrow> r_field r = [] \<Longrightarrow>
   \<forall>s \<in> set fs. length s \<le> field_limit \<Longrightarrow>
   reader_rows r p (join [44] (map join_append fs) @ 10 # rest)
     = yield (r_fields r @ fs) (reader_rows parse_reset False rest)"
proof (induction fs arbitrary: r p rule: list_nonempty_induct)
  case (single x)
  then show ?case by (simp add: read_field_newline)
next
  case (cons x xs)
  then obtain y ys where xs: "xs = y # ys" by (cases xs) auto
  let ?r = "r\<lparr>r_fields := r_fields r @ [x]\<rparr>"
  have "reader_rows r p (join [44] (map join_append (x # xs)) @ 10 # rest)
      = reader_rows r p (join_append x @ 44 # join [44] (map join_append xs) @ 10 # rest)"
    by (simp add: xs)
  also have "\<dots> = reader_rows ?r True (join [44] (map join_append xs) @ 10 # rest)"
    using cons.prems by (subst read_field_delimiter) simp_all
  also have "\<dots> = yield (r_fields ?r @ xs) (reader_rows parse_reset False rest)"
    using cons.prems by (subst cons.IH) simp_all
  finally show ?case by simp
qed

lemma join_append_hd: "join_append x = c # t \<Longrightarrow> c \<noteq> 10 \<and> c \<noteq> 13"
  by (cases "list_ex special x"; cases x) (auto simp: join_append_def special_def)

lemma join_hd:
  assumes "join [44] (map join_append (x # y # ys)) = c # t"
  shows "c \<noteq> 10 \<and> c \<noteq> 13"
proof (cases "join_append x")
  case Nil
  with assms show ?thesis by simp
next
  case (Cons d u)
  with assms have "c = d" by simp
  with join_append_hd [OF Cons] show ?thesis by simp
qed

lemma read_row_start:
  assumes fs: "fs = x # y # ys" and l: "\<forall>s \<in> set fs. length s \<le> field_limit"
  shows "reader_rows parse_reset p (join [44] (map join_append fs) @ 10 # rest)
     = yield fs (reader_rows parse_reset False rest)"
proof -
  obtain c t where ct: "join [44] (map join_append fs) = c # t"
    using fs by (cases "join [44] (map join_append fs)") auto
  with join_hd fs have c: "c \<noteq> 10 \<and> c \<noteq> 13" by blast
  let ?r = "parse_reset\<lparr>r_state := START_FIELD\<rparr>"
  have "reader_rows parse_reset p ((c # t) @ 10 # rest) = reader_rows ?r p ((c # t) @ 10 # rest)"
    using c ppc_start_record [of parse_reset c] by (simp add: parse_reset_def)
  also have "\<dots> = yield (r_fields ?r @ fs) (reader_rows parse_reset False rest)"
    unfolding ct [symmetric] using fs l by (subst read_row) (simp_all add: parse_reset_def)
  finally show ?thesis by (simp add: ct parse_reset_def)
qed

text \<open>The rows of a written file, as the reader yields them from the file read back.\<close>

lemma universal_newlines_row:
  "13 \<notin> set a \<Longrightarrow> universal_newlines (a @ 13 # 10 # rest) = a @ 10 # universal_newlines rest"
proof (induction a)
  case Nil
  then show ?case by simp
next
  case (Cons c a)
  obtain d ds where d: "a @ 13 # 10 # rest = d # ds" by (cases a) auto
  have "universal_newlines ((c # a) @ 13 # 10 # rest) = c # universal_newlines (a @ 13 # 10 # rest)"
    using Cons.prems by (simp add: d)
  with Cons show ?case by simp
qed

lemma set_join_append_data: "set (join_append_data s) \<subseteq> insert 34 (set s)"
  by (induction s) auto

lemma set_join_append: "set (join_append s) \<subseteq> insert 34 (set s)"
  using set_join_append_data [of s] by (auto simp: join_append_def)

lemma set_join: "set (join sep xs) \<subseteq> set sep \<union> \<Union> (set ` set xs)"
  by (induction sep xs rule: join.induct) auto

lemma join_two_not_Nil: "join [44] (x # y # ys) \<noteq> []"
  by simp

lemma writerow_read:
  assumes "row_ok row"
  shows "reader_rows parse_reset p (universal_newlines (writerow row @ rest))
     = yield (map field_text row) (reader_rows parse_reset False (universal_newlines rest))"
proof -
  from assms obtain x y ys where row: "row = x # y # ys"
    by (cases row; cases "tl row") (auto simp: row_ok_def)
  let ?fs = "map field_text row"
  let ?body = "join [44] (map join_append ?fs)"
  have w: "writerow row = ?body @ [13, 10]"
    by (simp add: writerow_def row comp_def)
  have fs: "?fs = field_text x # field_text y # map field_text ys" by (simp add: row)
  have l: "\<forall>s \<in> set ?fs. length s \<le> field_limit"
    using assms by (auto simp: row_ok_def)
  have "13 \<notin> set ?body"
  proof
    assume "13 \<in> set ?body"
    with set_join [of "[44]" "map join_append ?fs"]
    obtain v where v: "v \<in> set row" "13 \<in> set (join_append (field_text v))" by auto
    with set_join_append [of "field_text v"] have "13 \<in> set (field_text v)" by auto
    with assms v show False by (auto simp: row_ok_def)
  qed
  then have "universal_newlines (writerow row @ rest) = ?body @ 10 # universal_newlines rest"
    unfolding w using universal_newlines_row [of ?body rest] by simp
  then show ?thesis
    using read_row_start [OF fs l] by simp
qed

lemma writerows_read:
  "\<forall>row \<in> set rows. row_ok row \<Longrightarrow>
   reader_rows parse_reset False (universal_newlines (concat (map writerow rows)))
     = (map (map field_text) rows, None)"
proof (induction rows)
  case Nil
  then show ?case by (simp add: at_eof_def parse_reset_def)
next
  case (Cons row rows)
  then show ?case by (simp add: writerow_read yield_def)
qed

lemma header_ok: "row_ok (map PStr csv_fields)"
  by (simp add: row_ok_def csv_fields_def field_items_def field_limit_def)

lemma storable_row_ok: "storable c \<Longrightarrow> row_ok (data_row c)"
  by (simp add: storable_def row_ok_def data_row_eq)

lemma row_contact_stored: "row_contact (map field_text (data_row c)) = stored c"
  by (simp add: row_contact_def col_def stored_def data_row_eq)

lemma stored_text: "list_all is_str (data_row c) \<Longrightarrow> stored c = c"
proof -
  have t: "is_str v \<Longrightarrow> PStr (field_text v) = v" for v by (cases v) simp_all
  assume "list_all is_str (data_row c)"
  then show ?thesis by (simp add: data_row_eq stored_def t)
qed

lemma save_all_csv_reader:
  assumes "list_all storable cs"
  shows "csv_reader (writeheader csv_fields @ concat (map (\<lambda>c. writerow (data_row c)) cs))
     = (csv_fields # map (\<lambda>c. map field_text (data_row c)) cs, None)"
proof -
  let ?rows = "map PStr csv_fields # map data_row cs"
  have ok: "\<forall>row \<in> set ?rows. row_ok row"
    using assms header_ok by (auto simp: list_all_iff storable_row_ok)
  have "writeheader csv_fields @ concat (map (\<lambda>c. writerow (data_row c)) cs)
      = concat (map writerow ?rows)"
    by (simp add: writeheader_def comp_def)
  then show ?thesis
    unfolding csv_reader_def using writerows_read [OF ok] by (simp add: comp_def)
qed

section \<open>Saving and reading back\<close>

text \<open>
  Claim C1 says that reading back what \<open>save_all\<close> saved gives a list equal to the saved
  one in every field, the index included. A contact added in the session has the index
  \<open>1\<close> as an \<open>int\<close>; read back, its index is the string \<open>'1'\<close>, and the two contacts differ.
  A carriage return in an attribute is read back as a line feed.
\<close>

theorem save_all_read_all_differs:
  "save_then_read [a1] = Inr [a1\<lparr>index := PStr [49]\<rparr>] \<and> a1\<lparr>index := PStr [49]\<rparr> \<noteq> a1
   \<and> save_then_read [a3] = Inr [a3\<lparr>last_name := PStr [67, 10, 68]\<rparr>]
   \<and> a3\<lparr>last_name := PStr [67, 10, 68]\<rparr> \<noteq> a3"
  by (simp add: save_then_read_def save_all_eq writer_defs reader_defs a1_def a3_def Contact_def
      digits.simps [of "Suc 0"])

text \<open>
  Claim C1, as the code has it. For storable contacts, reading back what \<open>save_all\<close>
  saved returns every contact with its attributes as text: an \<open>int\<close> index as its decimal
  digits, \<open>None\<close> as the empty string, a string as it is. So a list whose attributes are
  all strings is read back unchanged.
\<close>

theorem save_all_read_all:
  assumes "list_all storable cs"
  shows "save_then_read cs = Inr (map stored cs)
     \<and> (list_all (\<lambda>c. list_all is_str (data_row c)) cs \<longrightarrow> save_then_read cs = Inr cs)"
proof -
  let ?text = "writeheader csv_fields @ concat (map (\<lambda>c. writerow (data_row c)) cs)"
  let ?rows = "map (\<lambda>c. map field_text (data_row c)) cs"
  have d: "data_rows ?rows = ?rows"
    by (induction cs) (simp_all add: data_rows_def data_row_eq)
  have r: "read_all ?text = Inr (map stored cs)"
    using read_all_header [OF save_all_csv_reader [OF assms]]
    by (simp add: d comp_def row_contact_stored)
  have "map stored cs = cs" if "list_all (\<lambda>c. list_all is_str (data_row c)) cs"
    using that by (induction cs) (simp_all add: stored_text)
  with r show ?thesis by (auto simp: save_then_read_def save_all_eq)
qed

theorem save_all_read_all_witness:
  "list_all storable [a1, w1] \<and> save_then_read [a1, w1] = Inr [a1\<lparr>index := PStr [49]\<rparr>, w1]
   \<and> list_all storable [w1] \<and> list_all (\<lambda>c. list_all is_str (data_row c)) [w1]
   \<and> save_then_read [w1] = Inr [w1]"
  using save_all_read_all [of "[a1, w1]"] save_all_read_all [of "[w1]"]
  by (simp add: storable_def stored_def data_row_eq a1_def w1_def Contact_def field_limit_def
      str_int_def digits.simps [of "Suc 0"])


section \<open>The invariant of the phone book\<close>

text \<open>
  \<open>__init__\<close> establishes the invariant; adding a contact keeps it when the operation
  returns, and deleting one keeps it however the operation ends.
\<close>

lemma texts_print_card: "texts c \<Longrightarrow> print_card c = Inr ()"
  by (auto simp: texts_def data_row_eq print_card_def split: pyval.splits)

lemma texts_index: "texts (c\<lparr>index := v\<rparr>) = texts c"
  by (simp add: texts_def data_row_eq)

lemma texts_setattr: "texts c \<Longrightarrow> texts (setattr c f (PStr x))"
  by (cases f) (simp_all add: texts_def data_row_eq)

lemma texts_Contact: "texts (Contact i)"
  by (simp add: texts_def data_row_eq Contact_def)

lemma input_fields_texts:
  "input_fields fs c inp = (e, c', inp') \<Longrightarrow> texts c \<Longrightarrow> texts c'"
proof (induction fs arbitrary: c inp)
  case Nil
  then show ?case by simp
next
  case (Cons f fs)
  show ?case
  proof (cases "title_en f = F_index")
    case True
    with Cons show ?thesis by simp
  next
    case False
    show ?thesis
    proof (cases inp)
      case Nil
      with False Cons.prems show ?thesis by simp
    next
      case (Cons d rest)
      with False Cons.prems Cons.IH texts_setattr [OF Cons.prems(2)] show ?thesis
        by (auto split: if_splits)
    qed
  qed
qed

lemma contact_of_values_data_row: "contact_of_values vs = Inr c \<Longrightarrow> data_row c = vs"
  by (induction vs rule: contact_of_values.induct) (auto simp: data_row_eq)

lemma dict_row_values: "(k, v) \<in> set (dict_row ks row) \<Longrightarrow> v = PNone \<or> (\<exists>s. v = PStr s)"
  by (auto simp: dict_row_def dest!: set_zip_rightD)

lemma row_values_values:
  assumes "row_values (dict_row ks row) = Inr vs" "v \<in> set vs"
  shows "v = PNone \<or> (\<exists>s. v = PStr s)"
proof -
  from mapM_all [OF assms [unfolded row_values_def]]
  obtain f where "dict_get (dict_row ks row) f = Some v"
    by (auto split: option.splits)
  then have "(f, v) \<in> set (dict_row ks row)"
    by (auto simp: dict_get_def dest: map_of_SomeD)
  then show ?thesis by (rule dict_row_values)
qed

lemma read_all_values:
  assumes "read_all file = Inr cs" "c \<in> set cs" "v \<in> set (data_row c)"
  shows "v = PNone \<or> (\<exists>s. v = PStr s)"
proof -
  obtain rows err where r: "csv_reader file = (rows, err)" by (cases "csv_reader file")
  show ?thesis
  proof (cases rows)
    case Nil
    with assms r show ?thesis by (auto simp: read_all_def split: option.splits)
  next
    case (Cons fieldnames rest)
    with assms(1) r obtain data where
      d: "mapM (\<lambda>row. row_values (dict_row fieldnames row)) (filter (\<lambda>row. row \<noteq> []) rest) = Inr data"
      and c: "mapM contact_of_values data = Inr cs"
      by (auto simp: read_all_def split: sum.splits option.splits)
    from mapM_all [OF c assms(2)] obtain vs where vs: "vs \<in> set data" "contact_of_values vs = Inr c"
      by blast
    from mapM_all [OF d vs(1)] obtain row where "row_values (dict_row fieldnames row) = Inr vs"
      by blast
    moreover have "v \<in> set vs" using contact_of_values_data_row [OF vs(2)] assms(3) by simp
    ultimately show ?thesis by (rule row_values_values)
  qed
qed

lemma Phonebook_invariant: "Phonebook fmt file = Inr pb \<Longrightarrow> invariant pb"
proof -
  assume a: "Phonebook fmt file = Inr pb"
  then obtain cs where cs: "read_all file = Inr cs" and pb: "contacts pb = cs"
    "last_index pb = int (length cs)"
    by (auto simp: Phonebook_def split: sum.splits)
  have "texts c" if "c \<in> set cs" for c
    unfolding texts_def list_all_iff
  proof
    fix v assume "v \<in> set (tl (data_row c))"
    then have "v \<in> set (data_row c)" by (simp add: data_row_eq)
    from read_all_values [OF cs that this] show "case v of PInt i \<Rightarrow> False | _ \<Rightarrow> True"
      by auto
  qed
  with pb show ?thesis by (simp add: invariant_def list_all_iff)
qed

lemma add_contact_invariant:
  assumes "invariant pb" "add_contact pb inp = (Inr u, pb', inp')"
  shows "invariant pb'"
proof -
  obtain e c i where f: "input_fields (map snd field_items) (Contact (PInt (last_index pb + 1))) inp
      = (e, c, i)" by (cases "input_fields (map snd field_items) (Contact (PInt (last_index pb + 1))) inp") auto
  have t: "texts c" using input_fields_texts [OF f texts_Contact] .
  from assms(2) have "pb' = pb\<lparr>contacts := contacts pb @ [c], last_index := last_index pb + 1,
      storage := add_one (storage pb) c\<rparr>"
    by (cases e) (simp_all add: add_contact_def input_contact_data_def f Let_def storage_add_one_def)
  with assms(1) t show ?thesis by (simp add: invariant_def)
qed

lemma save_renumbered_invariant:
  assumes "list_all texts cs" "storage_save_all (update_indexes (pb\<lparr>contacts := cs\<rparr>)) = (r, pb')"
  shows "r = Inr () \<and> invariant pb'"
proof -
  let ?ms = "map (\<lambda>(idx, c). c\<lparr>index := PInt (int idx)\<rparr>) (zip [1..<Suc (length cs)] cs)"
  have t: "texts c" if "c \<in> set ?ms" for c
  proof -
    from that obtain idx c0 where "c0 \<in> set cs" "c = c0\<lparr>index := PInt (int idx)\<rparr>"
      by (auto dest: set_zip_rightD)
    with assms(1) show ?thesis by (simp add: texts_index list_all_iff)
  qed
  have len: "length ?ms = length cs" by (simp del: upt_Suc)
  have u: "update_indexes (pb\<lparr>contacts := cs\<rparr>)
      = pb\<lparr>contacts := ?ms, last_index := int (Suc (length cs)) - 1\<rparr>"
    by (rule update_indexes_eq) simp
  from assms(2) have "r = Inr ()" and pb': "contacts pb' = ?ms" "last_index pb' = int (length cs)"
    unfolding u by (auto simp: storage_save_all_def save_all_eq simp del: upt_Suc)
  with t len show ?thesis
    unfolding invariant_def list_all_iff by (simp del: upt_Suc)
qed

lemma delete_loop_invariant:
  "invariant pb \<Longrightarrow> delete_loop obj pb inp = (r, pb', inp') \<Longrightarrow> invariant pb'"
proof (induction inp arbitrary: obj pb)
  case Nil
  then show ?case by simp
next
  case (Cons a inp)
  let ?c = "chosen_contact (contacts pb) obj"
  let ?cs = "remove1 ?c (contacts pb)"
  obtain r1 pb1 where s: "storage_save_all (update_indexes (pb\<lparr>contacts := ?cs\<rparr>)) = (r1, pb1)"
    by (cases "storage_save_all (update_indexes (pb\<lparr>contacts := ?cs\<rparr>))")
  have "list_all texts ?cs"
    using Cons.prems(1) by (auto simp: invariant_def list_all_iff dest: notin_set_remove1)
  from save_renumbered_invariant [OF this s] have r1: "r1 = Inr ()" and i1: "invariant pb1" by auto
  from Cons.prems(2) Cons.prems(1) Cons.IH [OF i1] Cons.IH [OF Cons.prems(1)] show ?case
    by (simp add: s r1 split: if_splits) (use i1 in auto)
qed

lemma delete_contact_invariant:
  "invariant pb \<Longrightarrow> delete_contact pb inp = (r, pb', inp') \<Longrightarrow> invariant pb'"
  by (auto simp: delete_contact_def split: prod.splits sum.splits option.splits
      dest: delete_loop_invariant)

section \<open>Search on attributes that are strings\<close>

text \<open>
  On contacts whose attributes are strings, as \<open>read_all\<close> builds them, the search over
  all fields returns exactly the contacts that match in some attribute, each once; the
  search over selected fields, exactly the contacts that match every condition.
\<close>

lemma py_lower_str: "is_str v \<Longrightarrow> py_lower v = Inr (lower (field_text v))"
  by (cases v) simp_all

lemma all_fields_values_text:
  "list_all is_str vs \<Longrightarrow>
   all_fields_values q c vs found =
     Inr (if (\<exists>v \<in> set vs. sublist q (lower (field_text v))) \<and> c \<notin> set found
          then found @ [c] else found)"
proof (induction vs arbitrary: found)
  case Nil
  then show ?case by simp
next
  case (Cons v vs)
  then have v: "py_lower v = Inr (lower (field_text v))" and vs: "list_all is_str vs"
    by (simp_all add: py_lower_str)
  show ?case
    by (simp add: v Cons.IH [OF vs])
qed

lemma all_fields_contacts_text:
  "list_all (\<lambda>c. list_all is_str (data_row c)) cs \<Longrightarrow>
   \<exists>found'. all_fields_contacts q cs found = Inr found'
      \<and> set found' = set found \<union> {c \<in> set cs. matches_any q c}
      \<and> (distinct found \<longrightarrow> distinct found')"
proof (induction cs arbitrary: found)
  case Nil
  then show ?case by simp
next
  case (Cons c cs)
  then have c: "list_all is_str (data_row c)"
    and cs: "list_all (\<lambda>c. list_all is_str (data_row c)) cs" by simp_all
  let ?f = "if matches_any q c \<and> c \<notin> set found then found @ [c] else found"
  have s: "all_fields_values q c (data_row c) found = Inr ?f"
    by (simp add: all_fields_values_text [OF c] matches_any_def)
  from Cons.IH [OF cs, of ?f] obtain found' where
    f: "all_fields_contacts q cs ?f = Inr found'"
      "set found' = set ?f \<union> {c \<in> set cs. matches_any q c}"
      "distinct ?f \<longrightarrow> distinct found'" by blast
  have "all_fields_contacts q (c # cs) found = Inr found'"
    by (simp only: all_fields_contacts.simps s sum.case f(1))
  moreover have "set found' = set found \<union> {x \<in> set (c # cs). matches_any q x}"
    using f(2) by auto
  moreover have "distinct found \<longrightarrow> distinct found'"
    using f(3) by auto
  ultimately show ?case by blast
qed

lemma search_conditions_loop_text:
  "\<forall>s \<in> set ss. is_str (getattr c (fst s)) \<Longrightarrow> m + length ss \<le> n \<Longrightarrow>
   search_conditions_loop n c ss m found =
     Inr (if ss \<noteq> [] \<and> m + length ss = n \<and> matches_all ss c \<and> c \<notin> set found
          then found @ [c] else found)"
proof (induction ss arbitrary: m found)
  case Nil
  then show ?case by simp
next
  case (Cons s ss)
  then have v: "py_lower (getattr c (fst s)) = Inr (lower (field_text (getattr c (fst s))))"
    and ss: "\<forall>s \<in> set ss. is_str (getattr c (fst s))"
    by (simp_all add: py_lower_str)
  let ?m = "if sublist (lower (snd s)) (lower (field_text (getattr c (fst s)))) then m + 1 else m"
  have le: "?m + length ss \<le> n" using Cons.prems(2) by simp
  show ?case
  proof (cases "ss = []")
    case True
    with Cons.prems(2) show ?thesis
      by (auto simp: v matches_all_def Let_def)
  next
    case False
    then have "0 < length ss" by simp
    with le have "?m \<noteq> n" by linarith
    then have "search_conditions_loop n c (s # ss) m found
        = search_conditions_loop n c ss ?m found"
      by (simp add: v Let_def)
    also note Cons.IH [OF ss le]
    finally show ?thesis
      using False Cons.prems(2) by (auto simp: matches_all_def)
  qed
qed

lemma search_contacts_loop_text:
  "conds \<noteq> [] \<Longrightarrow> \<forall>c \<in> set cs. \<forall>s \<in> set conds. is_str (getattr c (fst s)) \<Longrightarrow>
   \<exists>found'. search_contacts_loop conds cs found = Inr found'
      \<and> set found' = set found \<union> {c \<in> set cs. matches_all conds c}
      \<and> (distinct found \<longrightarrow> distinct found')"
proof (induction cs arbitrary: found)
  case Nil
  then show ?case by simp
next
  case (Cons c cs)
  let ?f = "if matches_all conds c \<and> c \<notin> set found then found @ [c] else found"
  have s: "search_conditions_loop (length conds) c conds 0 found = Inr ?f"
    using Cons.prems by (subst search_conditions_loop_text) auto
  from Cons.IH [of ?f] Cons.prems obtain found' where
    f: "search_contacts_loop conds cs ?f = Inr found'"
      "set found' = set ?f \<union> {c \<in> set cs. matches_all conds c}"
      "distinct ?f \<longrightarrow> distinct found'" by auto
  have "search_contacts_loop conds (c # cs) found = Inr found'"
    by (simp only: search_contacts_loop.simps s sum.case f(1))
  moreover have "set found' = set found \<union> {x \<in> set (c # cs). matches_all conds x}"
    using f(2) by auto
  moreover have "distinct found \<longrightarrow> distinct found'"
    using f(3) by auto
  ultimately show ?case by blast
qed

text \<open>On contacts whose attributes are strings both searches return what the claims say.\<close>

lemma all_fields_search_text:
  assumes "list_all (\<lambda>c. list_all is_str (data_row c)) cs"
  shows "\<exists>found. all_fields_contacts (lower q) cs [] = Inr found \<and> distinct found
     \<and> set found = {c \<in> set cs. matches_any (lower q) c}"
  using all_fields_contacts_text [OF assms, of "lower q" "[]"] by auto

lemma selected_fields_search_text:
  assumes "conds \<noteq> []"
    and "\<forall>c \<in> set (contacts pb). \<forall>s \<in> set conds. is_str (getattr c (fst s))"
  shows "\<exists>found. find_contacts_by_search_conditions pb conds = Inr found \<and> distinct found
     \<and> set found = {c \<in> set (contacts pb). matches_all conds c}"
  using search_contacts_loop_text [OF assms, of "[]"]
  by (auto simp: find_contacts_by_search_conditions_def)

section \<open>The accepted field numbers and answers\<close>

lemma field_range_eq: "field_range = [0, 1, 2, 3, 4, 5, 6]"
  by (simp add: field_range_def field_items_def upto.simps)

lemma field_map_dom: "dom field_map = {1, 2, 3, 4, 5, 6, 7}"
  by (auto simp: field_map_def field_items_def split: if_splits)

lemma length_filter_all: "(length (filter P xs) = length xs) = list_all P xs"
proof (induction xs)
  case Nil
  then show ?case by simp
next
  case (Cons x xs)
  have "length (filter P xs) \<le> length xs" by simp
  then have "length (filter P xs) \<noteq> Suc (length xs)" by linarith
  with Cons show ?case by auto
qed

text \<open>
  The lines the field-number prompt accepts: every token a number of \<open>0..6\<close>. A line with
  another token, none of which \<open>int\<close> raises on, is refused and the next line read.
\<close>

lemma field_tokens_eq:
  "list_all (\<lambda>x. isnumeric x \<longrightarrow> (\<exists>n. int_str x = Inr n)) xs \<Longrightarrow>
   field_tokens xs =
     Inr (map int_of_str
            (filter (\<lambda>x. isnumeric x \<and> 0 \<le> int_of_str x \<and> int_of_str x \<le> 6) xs))"
proof (induction xs)
  case Nil
  then show ?case by simp
next
  case (Cons x xs)
  show ?case
  proof (cases "isnumeric x")
    case True
    with Cons.prems obtain n where n: "int_str x = Inr n" by auto
    then have "n = int_of_str x" by (auto simp: int_str_def split: if_splits)
    with True n Cons show ?thesis by (auto simp: field_range_eq)
  next
    case False
    with Cons show ?thesis by simp
  qed
qed

lemma get_field_indexes_accepts:
  assumes "list_all (\<lambda>x. isnumeric x \<longrightarrow> (\<exists>n. int_str x = Inr n)) (split a)"
  shows "get_field_indexes (a # inp) =
     (if list_all (\<lambda>x. isnumeric x \<and> 0 \<le> int_of_str x \<and> int_of_str x \<le> 6) (split a)
      then (Inr (map int_of_str (split a)), inp)
      else get_field_indexes inp)"
proof -
  let ?P = "\<lambda>x. isnumeric x \<and> 0 \<le> int_of_str x \<and> int_of_str x \<le> 6"
  have l: "(length (map int_of_str (filter ?P (split a))) = length (split a)) = list_all ?P (split a)"
    by (simp add: length_filter_all)
  have f: "list_all ?P (split a) \<Longrightarrow> filter ?P (split a) = split a"
    by (simp add: list_all_iff)
  show ?thesis
    by (simp only: get_field_indexes.simps field_tokens_eq [OF assms] sum.case l)
      (simp add: f del: length_map)
qed

text \<open>The answers of the confirmation that do what the claim says.\<close>

lemma delete_loop_no:
  "lower a \<in> set no_answers \<Longrightarrow> delete_loop obj pb (a # inp) = (Inr (), pb, inp)"
  by simp

lemma delete_loop_other:
  "lower a \<notin> set no_answers \<Longrightarrow> lower a \<notin> set yes_answers \<Longrightarrow>
   delete_loop obj pb (a # inp) = delete_loop obj pb inp"
  by simp


end
